theory Spec2Isabelle
  imports Complex_Main "HOL-Library.Word"
begin

section \<open>The string hash register (core/string\_hash\_register.cpp)\<close>

text \<open>
  A \<open>StringHash\<close> is a 32-bit value. The register owns \<open>map_\<close> (here \<open>strings\<close>), a hash map from
  hash to the string first registered under it. The optional mutex only brackets the
  body and is not modelled. Warnings written with \<open>URHO3D_LOGWARNINGF\<close> are collected,
  in order, in \<open>warnings\<close>.
\<close>

type_synonym StringHash = "32 word"

datatype log_message =
  HashCollision string string StringHash

record StringHashRegister =
  strings :: "StringHash \<rightharpoonup> string"
  warnings :: "log_message list"

text \<open>
  Modelled from the spec: \<open>String::Compare(str, caseSensitive)\<close> is declared in
  containers/str.h, which is not under src/. It is the three-way comparison of two
  strings, by bytes, and with \<open>caseSensitive = false\<close> both sides are compared after
  mapping the ASCII letters to lower case.
\<close>

definition to_lower :: "char \<Rightarrow> char" where
  "to_lower c =
     (case map_of (zip ''ABCDEFGHIJKLMNOPQRSTUVWXYZ'' ''abcdefghijklmnopqrstuvwxyz'') c of
        Some l \<Rightarrow> l
      | None \<Rightarrow> c)"

fun strcmp :: "string \<Rightarrow> string \<Rightarrow> int" where
  "strcmp [] [] = 0"
| "strcmp [] (y # ys) = - 1"
| "strcmp (x # xs) [] = 1"
| "strcmp (x # xs) (y # ys) =
     (if x = y then strcmp xs ys
      else if (of_char x :: nat) < of_char y then - 1 else 1)"

definition Compare :: "string \<Rightarrow> string \<Rightarrow> bool \<Rightarrow> int" where
  "Compare s str caseSensitive =
     (if caseSensitive then strcmp s str
      else strcmp (map to_lower s) (map to_lower str))"

text \<open>
  \<open>RegisterString(hash, string)\<close>: a hash that is not in the map is stored with the
  string; a hash that is there with a string that \<open>Compare\<close> tells apart is reported;
  the hash is returned in every case.
\<close>

definition RegisterString ::
  "StringHash \<Rightarrow> string \<Rightarrow> StringHashRegister \<Rightarrow> StringHash \<times> StringHashRegister" where
  "RegisterString hash string r =
     (case strings r hash of
        None \<Rightarrow> (hash, r\<lparr>strings := (strings r)(hash \<mapsto> string)\<rparr>)
      | Some stored \<Rightarrow>
          if Compare stored string False \<noteq> 0
          then (hash, r\<lparr>warnings := warnings r @ [HashCollision string stored hash]\<rparr>)
          else (hash, r))"

text \<open>
  \<open>RegisterString(string)\<close> computes the hash with the \<open>StringHash\<close> constructor
  (core/string\_hash.h, not under src/), taken here as the parameter \<open>calc\<close>.
\<close>

definition RegisterString_name ::
  "(string \<Rightarrow> StringHash) \<Rightarrow> string \<Rightarrow> StringHashRegister \<Rightarrow> StringHash \<times> StringHashRegister" where
  "RegisterString_name calc string r = RegisterString (calc string) string r"

definition GetString :: "StringHashRegister \<Rightarrow> StringHash \<Rightarrow> string" where
  "GetString r hash = (case strings r hash of None \<Rightarrow> [] | Some s \<Rightarrow> s)"

definition Contains :: "StringHashRegister \<Rightarrow> StringHash \<Rightarrow> bool" where
  "Contains r hash = (strings r hash \<noteq> None)"


section \<open>Scene: identifiers and the declarations of scene.h and node.h\<close>

text \<open>
  Node and component ids are \<open>id32\<close> values (scene\_resolver.h). Objects are referred
  to by address; a \<open>Node*\<close> or a \<open>Component*\<close> is an \<open>addr option\<close>, \<open>None\<close> being the
  null pointer. What the scene reads and writes through these pointers lives in the
  store of the \<open>SceneContent\<close>: the \<open>id_\<close> and \<open>scene_\<close> fields of the nodes, the
  \<open>id_\<close> field of the components, and the vectors that \<open>GetComponents()\<close> and
  \<open>GetChildren()\<close> return for a node at the moment of the call.
\<close>

type_synonym id32 = "32 word"
type_synonym NodeId = id32
type_synonym ComponentId = id32
type_synonym addr = nat

datatype CreateMode = REPLICATED | LOCAL

datatype LoadMode = LOAD_RESOURCES_ONLY | LOAD_SCENE | LOAD_SCENE_AND_RESOURCES

fun LoadMode_value :: "LoadMode \<Rightarrow> nat" where
  "LoadMode_value LOAD_RESOURCES_ONLY = 0"
| "LoadMode_value LOAD_SCENE = 1"
| "LoadMode_value LOAD_SCENE_AND_RESOURCES = 2"

text \<open>
  scene.h, node.h and math\_defs.h are not under src/. What scene.cpp uses of them is
  taken as a parameter: the four bounds of the id ranges, the static test
  \<open>IsReplicatedID\<close>, the id that \<open>Node::ResetScene()\<close> leaves in a node whose scene
  reference it clears, and \<open>M_EPSILON\<close>.
\<close>

record Params =
  FIRST_REPLICATED_ID :: id32
  LAST_REPLICATED_ID :: id32
  FIRST_LOCAL_ID :: id32
  LAST_LOCAL_ID :: id32
  IsReplicatedID :: "id32 \<Rightarrow> bool"
  ResetScene_id :: "NodeId \<Rightarrow> NodeId"
  M_EPSILON :: real

datatype scene_log =
  OverwritingNode NodeId
| OverwritingComponent ComponentId
| NullFile
| NotValidSceneFile string
| LoadingSceneFrom string
| PreloadingResourcesFrom string

text \<open>
  The content of a scene, that is the part of the state that node-level code (adding,
  removing, loading, attributes) touches: the address of the Scene itself (\<open>this\<close>),
  the four id counters and the four lookup tables, the fields and vectors of the
  nodes and components named above, the attributes of the Scene (time scale,
  smoothing, elapsed time, name, registered variable names), and the log. A float is
  modelled by the real number it stands for. The tag cache, the network-update id
  sets, the replication states of connections and the \<open>OnSceneSet\<close> hook of
  components never read or write an id, a scene reference, a vector or a table, and
  are left out.
\<close>

record SceneContent =
  this :: addr
  replicatedNodeID :: NodeId
  replicatedComponentID :: ComponentId
  localNodeID :: NodeId
  localComponentID :: ComponentId
  replicatedNodes :: "NodeId \<rightharpoonup> addr"
  localNodes :: "NodeId \<rightharpoonup> addr"
  replicatedComponents :: "ComponentId \<rightharpoonup> addr"
  localComponents :: "ComponentId \<rightharpoonup> addr"
  node_id :: "addr \<Rightarrow> NodeId"
  node_scene :: "addr \<Rightarrow> addr option"
  GetComponents :: "addr \<Rightarrow> addr option list"
  GetChildren :: "addr \<Rightarrow> addr option list"
  comp_id :: "addr \<Rightarrow> ComponentId"
  timeScale :: real
  elapsedTime :: real
  smoothing_constant :: real
  snap_threshold :: real
  name :: string
  varNames :: "string \<rightharpoonup> string"
  logged :: "scene_log list"

section \<open>Scene: the free-id scan\<close>

text \<open>
  \<open>GetFreeNodeID\<close> and \<open>GetFreeComponentID\<close> each hold the same \<open>for (;;)\<close> loop
  twice, once per mode, over a counter, its range and its table. \<open>free_id_scan\<close> is
  that loop: \<open>ret\<close> is the counter, the counter moves on (wrapping from \<open>last_id\<close> to
  \<open>first_id\<close>), and \<open>ret\<close> is returned with the new counter when the table does not
  contain it. The loop has no other exit, so a scan that never returns is \<open>None\<close>.
\<close>

partial_function (option) free_id_scan ::
  "id32 \<Rightarrow> id32 \<Rightarrow> (id32 \<Rightarrow> bool) \<Rightarrow> id32 \<Rightarrow> (id32 \<times> id32) option" where
  "free_id_scan first_id last_id contains counter =
     (let ret = counter;
          counter' = (if counter < last_id then counter + 1 else first_id)
      in if \<not> contains ret then Some (ret, counter')
         else free_id_scan first_id last_id contains counter')"

definition GetFreeNodeID :: "Params \<Rightarrow> CreateMode \<Rightarrow> SceneContent \<Rightarrow> (NodeId \<times> SceneContent) option" where
  "GetFreeNodeID p mode g =
     (if mode = REPLICATED
      then map_option (\<lambda>(ret, counter). (ret, g\<lparr>replicatedNodeID := counter\<rparr>))
             (free_id_scan (FIRST_REPLICATED_ID p) (LAST_REPLICATED_ID p)
                (\<lambda>k. replicatedNodes g k \<noteq> None) (replicatedNodeID g))
      else map_option (\<lambda>(ret, counter). (ret, g\<lparr>localNodeID := counter\<rparr>))
             (free_id_scan (FIRST_LOCAL_ID p) (LAST_LOCAL_ID p)
                (\<lambda>k. localNodes g k \<noteq> None) (localNodeID g)))"

definition GetFreeComponentID ::
  "Params \<Rightarrow> CreateMode \<Rightarrow> SceneContent \<Rightarrow> (ComponentId \<times> SceneContent) option" where
  "GetFreeComponentID p mode g =
     (if mode = REPLICATED
      then map_option (\<lambda>(ret, counter). (ret, g\<lparr>replicatedComponentID := counter\<rparr>))
             (free_id_scan (FIRST_REPLICATED_ID p) (LAST_REPLICATED_ID p)
                (\<lambda>k. replicatedComponents g k \<noteq> None) (replicatedComponentID g))
      else map_option (\<lambda>(ret, counter). (ret, g\<lparr>localComponentID := counter\<rparr>))
             (free_id_scan (FIRST_LOCAL_ID p) (LAST_LOCAL_ID p)
                (\<lambda>k. localComponents g k \<noteq> None) (localComponentID g)))"

section \<open>Scene: adding and removing components and nodes\<close>

definition ComponentRemoved :: "Params \<Rightarrow> addr option \<Rightarrow> SceneContent \<Rightarrow> SceneContent" where
  "ComponentRemoved p component g =
     (case component of
        None \<Rightarrow> g
      | Some c \<Rightarrow>
          let ident = comp_id g c;
              g1 = (if IsReplicatedID p ident
                    then g\<lparr>replicatedComponents := (replicatedComponents g)(ident := None)\<rparr>
                    else g\<lparr>localComponents := (localComponents g)(ident := None)\<rparr>)
          in g1\<lparr>comp_id := (comp_id g1)(c := 0)\<rparr>)"

definition ComponentAdded :: "Params \<Rightarrow> addr option \<Rightarrow> SceneContent \<Rightarrow> SceneContent option" where
  "ComponentAdded p component g =
     (case component of
        None \<Rightarrow> Some g
      | Some c \<Rightarrow>
          (case (if comp_id g c = 0
                 then map_option (\<lambda>(ident, g'). (ident, g'\<lparr>comp_id := (comp_id g')(c := ident)\<rparr>))
                        (GetFreeComponentID p REPLICATED g)
                 else Some (comp_id g c, g)) of
             None \<Rightarrow> None
           | Some (ident, g1) \<Rightarrow>
               if IsReplicatedID p ident
               then let g2 = (case replicatedComponents g1 ident of
                                Some other \<Rightarrow>
                                  if other \<noteq> c
                                  then ComponentRemoved p (Some other)
                                         (g1\<lparr>logged := logged g1 @ [OverwritingComponent ident]\<rparr>)
                                  else g1
                              | None \<Rightarrow> g1)
                    in Some (g2\<lparr>replicatedComponents := (replicatedComponents g2)(ident \<mapsto> c)\<rparr>)
               else let g2 = (case localComponents g1 ident of
                                Some other \<Rightarrow>
                                  if other \<noteq> c
                                  then ComponentRemoved p (Some other)
                                         (g1\<lparr>logged := logged g1 @ [OverwritingComponent ident]\<rparr>)
                                  else g1
                              | None \<Rightarrow> g1)
                    in Some (g2\<lparr>localComponents := (localComponents g2)(ident \<mapsto> c)\<rparr>)))"

text \<open>
  A loop \<open>for (i = v.Begin(); i != v.End(); ++i) f(*i)\<close> over a vector, for a function
  \<open>f\<close> that may not return: the calls are made in order, and a call without result
  leaves the loop without result. The lemma makes the loop usable in the recursive
  definitions below.
\<close>

fun for_each :: "('a \<Rightarrow> 's \<Rightarrow> 's option) \<Rightarrow> 'a list \<Rightarrow> 's \<Rightarrow> 's option" where
  "for_each f [] s = Some s"
| "for_each f (x # xs) s = Option.bind (f x s) (for_each f xs)"

lemma for_each_mono [partial_function_mono]:
  assumes "\<And>x s. mono_option (\<lambda>f. F f x s)"
  shows "mono_option (\<lambda>f. for_each (F f) xs s)"
proof (induction xs arbitrary: s)
  case Nil
  show ?case by (simp add: option.const_mono)
next
  case (Cons x xs)
  show ?case
    unfolding for_each.simps
    by (rule bind_mono) (rule assms, rule Cons)
qed

text \<open>
  \<open>NodeRemoved\<close>. The vectors of components and of children are read from the node
  when the loops start; nothing in the loops changes a vector. The recursion follows
  the children as the store holds them, so on a store with an endless chain of nodes
  of the scene the call does not return, which is the value \<open>None\<close>.
\<close>

partial_function (option) NodeRemoved ::
  "Params \<Rightarrow> addr option \<Rightarrow> SceneContent \<Rightarrow> SceneContent option" where
  "NodeRemoved p node g =
     (case node of
        None \<Rightarrow> Some g
      | Some a \<Rightarrow>
          if node_scene g a \<noteq> Some (this g) then Some g
          else
            let ident = node_id g a;
                g1 = (if IsReplicatedID p ident
                      then g\<lparr>replicatedNodes := (replicatedNodes g)(ident := None)\<rparr>
                      else g\<lparr>localNodes := (localNodes g)(ident := None)\<rparr>);
                g2 = g1\<lparr>node_scene := (node_scene g1)(a := None),
                        node_id := (node_id g1)(a := ResetScene_id p ident)\<rparr>;
                g3 = fold (ComponentRemoved p) (GetComponents g2 a) g2
            in for_each (NodeRemoved p) (GetChildren g3 a) g3)"

text \<open>
  \<open>ComponentRemoved\<close> and \<open>NodeRemoved\<close> as another Scene runs them
  (\<open>oldScene->NodeRemoved(node)\<close> in \<open>NodeAdded\<close>). The tables of that scene are not
  part of the state; what the call does to the nodes and components is.
\<close>

definition ComponentRemoved_other :: "addr option \<Rightarrow> SceneContent \<Rightarrow> SceneContent" where
  "ComponentRemoved_other component g =
     (case component of
        None \<Rightarrow> g
      | Some c \<Rightarrow> g\<lparr>comp_id := (comp_id g)(c := 0)\<rparr>)"

partial_function (option) NodeRemoved_other ::
  "Params \<Rightarrow> addr \<Rightarrow> addr option \<Rightarrow> SceneContent \<Rightarrow> SceneContent option" where
  "NodeRemoved_other p oldScene node g =
     (case node of
        None \<Rightarrow> Some g
      | Some a \<Rightarrow>
          if node_scene g a \<noteq> Some oldScene then Some g
          else
            let g1 = g\<lparr>node_scene := (node_scene g)(a := None),
                       node_id := (node_id g)(a := ResetScene_id p (node_id g a))\<rparr>;
                g2 = fold ComponentRemoved_other (GetComponents g1 a) g1
            in for_each (NodeRemoved_other p oldScene) (GetChildren g2 a) g2)"

text \<open>
  \<open>NodeAdded\<close>. A free-id scan or a removal that does not return leaves the whole
  call without result.
\<close>

partial_function (option) NodeAdded ::
  "Params \<Rightarrow> addr option \<Rightarrow> SceneContent \<Rightarrow> SceneContent option" where
  "NodeAdded p node g =
     (case node of
        None \<Rightarrow> Some g
      | Some a \<Rightarrow>
          if node_scene g a = Some (this g) then Some g
          else
            (case (case node_scene g a of
                     Some oldScene \<Rightarrow> NodeRemoved_other p oldScene (Some a) g
                   | None \<Rightarrow> Some g) of
               None \<Rightarrow> None
             | Some g0 \<Rightarrow>
                 let g1 = g0\<lparr>node_scene := (node_scene g0)(a \<mapsto> this g0)\<rparr>
                 in (case (if node_id g1 a = 0
                           then map_option
                                  (\<lambda>(ident, g'). (ident, g'\<lparr>node_id := (node_id g')(a := ident)\<rparr>))
                                  (GetFreeNodeID p REPLICATED g1)
                           else Some (node_id g1 a, g1)) of
                       None \<Rightarrow> None
                     | Some (ident, g2) \<Rightarrow>
                         (case (if IsReplicatedID p ident
                                then map_option
                                       (\<lambda>g3. g3\<lparr>replicatedNodes := (replicatedNodes g3)(ident \<mapsto> a)\<rparr>)
                                       (case replicatedNodes g2 ident of
                                          Some other \<Rightarrow>
                                            if other \<noteq> a
                                            then NodeRemoved p (Some other)
                                                   (g2\<lparr>logged := logged g2 @ [OverwritingNode ident]\<rparr>)
                                            else Some g2
                                        | None \<Rightarrow> Some g2)
                                else map_option
                                       (\<lambda>g3. g3\<lparr>localNodes := (localNodes g3)(ident \<mapsto> a)\<rparr>)
                                       (case localNodes g2 ident of
                                          Some other \<Rightarrow>
                                            if other \<noteq> a
                                            then NodeRemoved p (Some other)
                                                   (g2\<lparr>logged := logged g2 @ [OverwritingNode ident]\<rparr>)
                                            else Some g2
                                        | None \<Rightarrow> Some g2)) of
                            None \<Rightarrow> None
                          | Some g4 \<Rightarrow>
                              (case for_each (ComponentAdded p) (GetComponents g4 a) g4 of
                                 None \<Rightarrow> None
                               | Some g5 \<Rightarrow> for_each (NodeAdded p) (GetChildren g5 a) g5)))))"

text \<open>
  Modelled from the spec: the operations of node.cpp that create and remove nodes and
  components; node.cpp is not under src/. \<open>createChild\<close> makes a new node: "if id is
  0, auto-assigns the next free id in the replicated or local range per mode; if an
  explicit id collides with an existing node, the existing node is forcibly detached
  (logged as overwrite) and replaced"; \<open>createComponent\<close> follows the "same
  id-assignment policy as nodes, in the separate component id space"; \<open>removeChild\<close>
  "removes its components [...] then recurses into children before finally detaching
  from the parent". The new object is given by its address. It joins the vector of
  its parent or node and receives its id; when the parent or node is in the scene,
  an id 0 is replaced by a free id of the mode and the object is reported to the
  scene with \<open>NodeAdded\<close> or \<open>ComponentAdded\<close>. Under a parent or node that is not in
  the scene the object keeps the id it is given and the scene is not called.
\<close>

definition Node_create_child ::
  "Params \<Rightarrow> addr \<Rightarrow> NodeId \<Rightarrow> CreateMode \<Rightarrow> addr \<Rightarrow> SceneContent \<Rightarrow> SceneContent option" where
  "Node_create_child p parent ident mode newNode g =
     (if node_scene g parent = Some (this g)
      then
        (case (if ident = 0 then GetFreeNodeID p mode g else Some (ident, g)) of
           None \<Rightarrow> None
         | Some (i, g1) \<Rightarrow>
             NodeAdded p (Some newNode)
               (g1\<lparr>node_id := (node_id g1)(newNode := i),
                   GetChildren := (GetChildren g1)(parent := GetChildren g1 parent @ [Some newNode])\<rparr>))
      else Some (g\<lparr>node_id := (node_id g)(newNode := ident),
                   GetChildren := (GetChildren g)(parent := GetChildren g parent @ [Some newNode])\<rparr>))"

definition Node_remove_child ::
  "Params \<Rightarrow> addr \<Rightarrow> addr \<Rightarrow> SceneContent \<Rightarrow> SceneContent option" where
  "Node_remove_child p parent child g =
     (if Some child \<notin> set (GetChildren g parent) then Some g
      else
        (case (if node_scene g parent = Some (this g) then NodeRemoved p (Some child) g else Some g) of
           None \<Rightarrow> None
         | Some g1 \<Rightarrow>
             Some (g1\<lparr>GetChildren :=
                        (GetChildren g1)(parent := remove1 (Some child) (GetChildren g1 parent))\<rparr>)))"

definition Node_create_component ::
  "Params \<Rightarrow> addr \<Rightarrow> ComponentId \<Rightarrow> CreateMode \<Rightarrow> addr \<Rightarrow> SceneContent \<Rightarrow> SceneContent option" where
  "Node_create_component p node ident mode newComponent g =
     (if node_scene g node = Some (this g)
      then
        (case (if ident = 0 then GetFreeComponentID p mode g else Some (ident, g)) of
           None \<Rightarrow> None
         | Some (i, g1) \<Rightarrow>
             ComponentAdded p (Some newComponent)
               (g1\<lparr>comp_id := (comp_id g1)(newComponent := i),
                   GetComponents :=
                     (GetComponents g1)(node := GetComponents g1 node @ [Some newComponent])\<rparr>))
      else Some (g\<lparr>comp_id := (comp_id g)(newComponent := ident),
                   GetComponents :=
                     (GetComponents g)(node := GetComponents g node @ [Some newComponent])\<rparr>))"

definition Node_remove_component ::
  "Params \<Rightarrow> addr \<Rightarrow> addr \<Rightarrow> SceneContent \<Rightarrow> SceneContent" where
  "Node_remove_component p node component g =
     (if Some component \<notin> set (GetComponents g node) then g
      else
        let g1 = (if node_scene g node = Some (this g)
                  then ComponentRemoved p (Some component) g else g)
        in g1\<lparr>GetComponents :=
                (GetComponents g1)(node := remove1 (Some component) (GetComponents g1 node))\<rparr>)"

section \<open>Scene: streams, resolver and the state of a Scene\<close>

text \<open>
  A \<open>File\<close> is its name, its checksum, its bytes and the read position. An
  \<open>XmlElement\<close> handle is the element followed by its later siblings, the empty list
  being \<open>XmlElement::EMPTY\<close>. A JSON document is its root value.
\<close>

record File =
  file_name :: string
  file_checksum :: "32 word"
  file_data :: "8 word list"
  file_position :: nat

datatype XmlNode =
  XmlNode (xml_name: string) (xml_attributes: "(string \<times> string) list") (xml_children: "XmlNode list")

type_synonym XmlElement = "XmlNode list"

definition GetChild :: "XmlElement \<Rightarrow> string \<Rightarrow> XmlElement" where
  "GetChild h n =
     (case h of [] \<Rightarrow> [] | e # rest \<Rightarrow> dropWhile (\<lambda>c. xml_name c \<noteq> n) (xml_children e))"

definition GetNext :: "XmlElement \<Rightarrow> string \<Rightarrow> XmlElement" where
  "GetNext h n =
     (case h of [] \<Rightarrow> [] | e # rest \<Rightarrow> dropWhile (\<lambda>c. xml_name c \<noteq> n) rest)"

datatype JSONValue =
  JSONNull
| JSONBool bool
| JSONNumber int
| JSONString string
| JSONArray "JSONValue list"
| JSONObject "(string \<times> JSONValue) list"

definition Get :: "JSONValue \<Rightarrow> string \<Rightarrow> JSONValue" where
  "Get v k =
     (case v of
        JSONObject kvs \<Rightarrow> (case map_of kvs k of Some x \<Rightarrow> x | None \<Rightarrow> JSONNull)
      | _ \<Rightarrow> JSONNull)"

definition GetArray :: "JSONValue \<Rightarrow> JSONValue list" where
  "GetArray v = (case v of JSONArray xs \<Rightarrow> xs | _ \<Rightarrow> [])"

text \<open>
  The resolver (scene\_resolver.h): the nodes and components remembered under their
  old ids. \<open>Reset\<close> clears both maps, \<open>AddNode\<close> remembers a created node.
\<close>

record SceneResolver =
  nodes :: "NodeId \<rightharpoonup> addr"
  components :: "ComponentId \<rightharpoonup> addr"

definition Reset :: SceneResolver where
  "Reset = \<lparr>nodes = Map.empty, components = Map.empty\<rparr>"

definition AddNode :: "NodeId \<Rightarrow> addr \<Rightarrow> SceneResolver \<Rightarrow> SceneResolver" where
  "AddNode oldID node r = r\<lparr>nodes := (nodes r)(oldID \<mapsto> node)\<rparr>"

record AsyncProgress =
  file_ref :: "File option"
  xmlFile :: "XmlElement option"
  jsonFile :: "JSONValue option"
  xmlElement :: XmlElement
  jsonIndex :: "32 word"
  mode :: LoadMode
  resources :: "StringHash set"
  loadedResources :: "32 word"
  totalResources :: "32 word"
  loadedNodes :: "32 word"
  totalNodes :: "32 word"

datatype event_type =
  E_SCENEUPDATE
| E_ATTRIBUTEANIMATIONUPDATE
| E_SCENESUBSYSTEMUPDATE
| E_UPDATESMOOTHING
| E_SCENEPOSTUPDATE
| E_ASYNCLOADPROGRESS
| E_ASYNCLOADFINISHED

datatype signal = scene_update | scene_post_update

text \<open>
  What the scene sends: \<open>SendEvent\<close> with the event type and the numbers of the event
  data (the scene pointer of the data is always \<open>this\<close>), and \<open>emit\<close> of a signal with
  the time step.
\<close>

datatype emission =
  SendEvent event_type "real list"
| Emit signal real

text \<open>
  The members of a Scene: its content, the resolver, the asynchronous loading state,
  the per-frame loading budget, the update switch, the name and checksum of the last
  loaded file; and, as bookkeeping of the model, everything sent so far (\<open>emitted\<close>)
  and the number of readings taken from the \<open>HiresTimer\<close> (\<open>timer_reads\<close>).
\<close>

record Scene =
  content :: SceneContent
  resolver :: SceneResolver
  asyncLoading :: bool
  asyncProgress :: AsyncProgress
  asyncLoadingMs :: int
  updateEnabled :: bool
  fileName :: string
  checksum :: "32 word"
  emitted :: "emission list"
  timer_reads :: nat

text \<open>
  Code of the repository that scene.cpp calls and that is not under src/, taken as
  parameters: the readers of \<open>Deserializer\<close> and \<open>File::Seek\<close>, \<open>Node::create_child\<close>, the three
  \<open>Node::Load\<close> variants with a resolver (the flag is \<open>loadChildren\<close>),
  \<open>SceneResolver::Resolve\<close>, \<open>Node::apply_attributes\<close>, \<open>Node::RemoveChildren\<close> and
  \<open>Node::RemoveComponents\<close>, the number readers of XML and JSON, the name hashes
  of the resources that \<open>PreloadResources\<close> manages to queue for background loading
  (in the order of \<open>background_load_resource\<close> succeeding) with the file as its
  readings leave it, \<open>powf\<close> of the C library, and the readings of the \<open>HiresTimer\<close>
  in microseconds (the n-th reading taken by the scene).
\<close>

record Externals =
  ReadFileID :: "File \<Rightarrow> string \<times> File"
  ReadU32 :: "File \<Rightarrow> 32 word \<times> File"
  ReadVLE :: "File \<Rightarrow> 32 word \<times> File"
  Seek :: "nat \<Rightarrow> File \<Rightarrow> File"
  create_child :: "NodeId \<Rightarrow> CreateMode \<Rightarrow> SceneContent \<Rightarrow> addr \<times> SceneContent"
  Node_Load ::
    "addr \<Rightarrow> bool \<Rightarrow> File \<Rightarrow> SceneResolver \<Rightarrow> SceneContent
       \<Rightarrow> bool \<times> File \<times> SceneResolver \<times> SceneContent"
  Node_load_xml ::
    "addr \<Rightarrow> bool \<Rightarrow> XmlElement \<Rightarrow> SceneResolver \<Rightarrow> SceneContent
       \<Rightarrow> bool \<times> SceneResolver \<times> SceneContent"
  Node_load_json ::
    "addr \<Rightarrow> bool \<Rightarrow> JSONValue \<Rightarrow> SceneResolver \<Rightarrow> SceneContent
       \<Rightarrow> bool \<times> SceneResolver \<times> SceneContent"
  Resolve :: "SceneResolver \<Rightarrow> SceneContent \<Rightarrow> SceneContent"
  apply_attributes :: "SceneContent \<Rightarrow> SceneContent"
  RemoveChildren :: "bool \<Rightarrow> bool \<Rightarrow> bool \<Rightarrow> SceneContent \<Rightarrow> SceneContent"
  RemoveComponents :: "bool \<Rightarrow> bool \<Rightarrow> SceneContent \<Rightarrow> SceneContent"
  xml_GetU32 :: "XmlElement \<Rightarrow> string \<Rightarrow> 32 word"
  json_GetU32 :: "JSONValue \<Rightarrow> 32 word"
  PreloadResources :: "File \<Rightarrow> bool \<Rightarrow> StringHash list \<times> File"
  powf :: "real \<Rightarrow> real \<Rightarrow> real"
  GetUSec :: "nat \<Rightarrow> int"

text \<open>A null pointer that is dereferenced, an index beyond the end of a vector.\<close>

datatype fault = NullPointer | OutOfRange

section \<open>Arithmetic on 32-bit floats\<close>

text \<open>
  The result of an arithmetic operation on floats is the float nearest to the exact
  result, the one with the even significand when two are equally near.
  \<open>float_round\<close> is this rounding for the 32-bit format: a significand of 24 bits,
  and \<open>2 powr -149\<close> as the least unit in the last place. Results beyond the largest
  float, infinities and NaN are outside the model.
\<close>

definition round_even :: "real \<Rightarrow> int" where
  "round_even y =
     (let f = \<lfloor>y\<rfloor>; d = y - of_int f
      in if d < 1 / 2 then f else if 1 / 2 < d then f + 1 else if even f then f else f + 1)"

definition float_round :: "real \<Rightarrow> real" where
  "float_round x =
     (if x = 0 then 0
      else let e = max (\<lfloor>log 2 \<bar>x\<bar>\<rfloor> - 23) (- 149)
           in of_int (round_even (x / 2 powr e)) * 2 powr e)"

definition float_mul :: "real \<Rightarrow> real \<Rightarrow> real" where
  "float_mul a b = float_round (a * b)"

definition float_add :: "real \<Rightarrow> real \<Rightarrow> real" where
  "float_add a b = float_round (a + b)"

definition float_sub :: "real \<Rightarrow> real \<Rightarrow> real" where
  "float_sub a b = float_round (a - b)"

section \<open>Scene: construction, setters and progress\<close>

text \<open>
  The constructor. \<open>initial_content\<close> and \<open>initial_scene\<close> are the member
  initialisers: the counters start at the first id of their range, the base class
  leaves the new object without id, scene, components and children, the default
  smoothing constant
  and snap threshold are 50 and 5, no load is active. In the body the scene takes a
  free replicated id for itself and adds itself.
\<close>

definition initial_content ::
  "Params \<Rightarrow> addr \<Rightarrow> (addr \<Rightarrow> NodeId) \<Rightarrow> (addr \<Rightarrow> addr option) \<Rightarrow> (addr \<Rightarrow> ComponentId)
     \<Rightarrow> (addr \<Rightarrow> addr option list) \<Rightarrow> (addr \<Rightarrow> addr option list) \<Rightarrow> SceneContent" where
  "initial_content p a ids scenes cids comps kids =
     \<lparr>this = a,
      replicatedNodeID = FIRST_REPLICATED_ID p,
      replicatedComponentID = FIRST_REPLICATED_ID p,
      localNodeID = FIRST_LOCAL_ID p,
      localComponentID = FIRST_LOCAL_ID p,
      replicatedNodes = Map.empty, localNodes = Map.empty,
      replicatedComponents = Map.empty, localComponents = Map.empty,
      node_id = ids(a := 0), node_scene = scenes(a := None),
      GetComponents = comps(a := []), GetChildren = kids(a := []), comp_id = cids,
      timeScale = 1, elapsedTime = 0,
      smoothing_constant = 50, snap_threshold = 5,
      name = [], varNames = Map.empty, logged = []\<rparr>"

definition initial_scene :: "SceneContent \<Rightarrow> Scene" where
  "initial_scene c =
     \<lparr>content = c, resolver = Reset, asyncLoading = False,
      asyncProgress =
        \<lparr>file_ref = None, xmlFile = None, jsonFile = None, xmlElement = [],
         jsonIndex = 0, mode = LOAD_RESOURCES_ONLY, resources = {},
         loadedResources = 0, totalResources = 0,
         loadedNodes = 0, totalNodes = 0\<rparr>,
      asyncLoadingMs = 5, updateEnabled = True,
      fileName = [], checksum = 0, emitted = [], timer_reads = 0\<rparr>"

definition Scene_ctor ::
  "Params \<Rightarrow> addr \<Rightarrow> (addr \<Rightarrow> NodeId) \<Rightarrow> (addr \<Rightarrow> addr option) \<Rightarrow> (addr \<Rightarrow> ComponentId)
     \<Rightarrow> (addr \<Rightarrow> addr option list) \<Rightarrow> (addr \<Rightarrow> addr option list) \<Rightarrow> Scene option" where
  "Scene_ctor p a ids scenes cids comps kids =
     (case GetFreeNodeID p REPLICATED (initial_content p a ids scenes cids comps kids) of
        None \<Rightarrow> None
      | Some (ident, g1) \<Rightarrow>
          (case NodeAdded p (Some a) (g1\<lparr>node_id := (node_id g1)(a := ident)\<rparr>) of
             None \<Rightarrow> None
           | Some g2 \<Rightarrow> Some (initial_scene g2)))"


definition SetSmoothingConstant :: "Params \<Rightarrow> real \<Rightarrow> Scene \<Rightarrow> Scene" where
  "SetSmoothingConstant p constant s =
     s\<lparr>content := (content s)\<lparr>smoothing_constant := max constant (M_EPSILON p)\<rparr>\<rparr>"

definition SetSnapThreshold :: "real \<Rightarrow> Scene \<Rightarrow> Scene" where
  "SetSnapThreshold threshold s = s\<lparr>content := (content s)\<lparr>snap_threshold := max threshold 0\<rparr>\<rparr>"



definition SetUpdateEnabled :: "bool \<Rightarrow> Scene \<Rightarrow> Scene" where
  "SetUpdateEnabled enable s = s\<lparr>updateEnabled := enable\<rparr>"

text \<open>
  \<open>GetAsyncProgress\<close>. The sums are unsigned 32-bit sums; the quotient of the two
  converted sums is the real quotient.
\<close>

definition GetAsyncProgress :: "Scene \<Rightarrow> real" where
  "GetAsyncProgress s =
     (let ap = asyncProgress s
      in if \<not> asyncLoading s \<or> totalNodes ap + totalResources ap = 0 then 1
         else real (unat (loadedNodes ap + loadedResources ap))
              / real (unat (totalNodes ap + totalResources ap)))"

section \<open>Scene: asynchronous loading and the per-frame update\<close>

definition StopAsyncLoading :: "Scene \<Rightarrow> Scene" where
  "StopAsyncLoading s =
     s\<lparr>asyncLoading := False,
       asyncProgress := (asyncProgress s)\<lparr>file_ref := None, xmlFile := None, jsonFile := None,
                                          xmlElement := [], jsonIndex := 0, resources := {}\<rparr>,
       resolver := Reset\<rparr>"

definition FinishLoading :: "File option \<Rightarrow> Scene \<Rightarrow> Scene" where
  "FinishLoading source s =
     (case source of
        None \<Rightarrow> s
      | Some f \<Rightarrow> s\<lparr>fileName := file_name f, checksum := file_checksum f\<rparr>)"

definition FinishAsyncLoading :: "Externals \<Rightarrow> Scene \<Rightarrow> Scene" where
  "FinishAsyncLoading x s =
     (let s1 = (if LoadMode_value (mode (asyncProgress s)) > LoadMode_value LOAD_RESOURCES_ONLY
                then FinishLoading (file_ref (asyncProgress s))
                       (s\<lparr>content := apply_attributes x (Resolve x (resolver s) (content s)),
                          resolver := Reset\<rparr>)
                else s);
          s2 = StopAsyncLoading s1
      in s2\<lparr>emitted := emitted s2 @ [SendEvent E_ASYNCLOADFINISHED []]\<rparr>)"

definition HandleResourceBackgroundLoaded :: "StringHash \<Rightarrow> Scene \<Rightarrow> Scene" where
  "HandleResourceBackgroundLoaded nameHash s =
     (if asyncLoading s \<and> nameHash \<in> resources (asyncProgress s)
      then s\<lparr>asyncProgress := (asyncProgress s)
               \<lparr>resources := resources (asyncProgress s) - {nameHash},
                loadedResources := loadedResources (asyncProgress s) + 1\<rparr>\<rparr>
      else s)"

text \<open>
  One pass of the body of the loop of \<open>UpdateAsyncLoading\<close> up to the increment of
  \<open>loadedNodes_\<close>: one child node with its sub-hierarchy is read from XML, from JSON
  or from the binary file.
\<close>

definition load_next_child :: "Externals \<Rightarrow> Params \<Rightarrow> Scene \<Rightarrow> fault + Scene" where
  "load_next_child x p s =
     (let ap = asyncProgress s
      in if xmlFile ap \<noteq> None
         then
           let nodeID = xml_GetU32 x (xmlElement ap) ''id'';
               (newNode, c1) = create_child x nodeID
                  (if IsReplicatedID p nodeID then REPLICATED else LOCAL) (content s);
               r1 = AddNode nodeID newNode (resolver s);
               (ok, r2, c2) = Node_load_xml x newNode True (xmlElement ap) r1 c1
           in Inr (s\<lparr>content := c2, resolver := r2,
                      asyncProgress := ap\<lparr>xmlElement := GetNext (xmlElement ap) ''node''\<rparr>\<rparr>)
         else
           (case jsonFile ap of
              Some json \<Rightarrow>
                let children = GetArray (Get json ''children'')
                in if length children \<le> unat (jsonIndex ap) then Inl OutOfRange
                   else
                     let childValue = children ! unat (jsonIndex ap);
                         nodeID = json_GetU32 x (Get childValue ''id'');
                         (newNode, c1) = create_child x nodeID
                            (if IsReplicatedID p nodeID then REPLICATED else LOCAL) (content s);
                         r1 = AddNode nodeID newNode (resolver s);
                         (ok, r2, c2) = Node_load_json x newNode True childValue r1 c1
                     in Inr (s\<lparr>content := c2, resolver := r2,
                                asyncProgress := ap\<lparr>jsonIndex := jsonIndex ap + 1\<rparr>\<rparr>)
            | None \<Rightarrow>
                (case file_ref ap of
                   None \<Rightarrow> Inl NullPointer
                 | Some f \<Rightarrow>
                     let (nodeID, f1) = ReadU32 x f;
                         (newNode, c1) = create_child x nodeID
                            (if IsReplicatedID p nodeID then REPLICATED else LOCAL) (content s);
                         r1 = AddNode nodeID newNode (resolver s);
                         (ok, f2, r2, c2) = Node_Load x newNode True f1 r1 c1
                     in Inr (s\<lparr>content := c2, resolver := r2,
                                asyncProgress := ap\<lparr>file_ref := Some f2\<rparr>\<rparr>))))"

definition send_AsyncLoadProgress :: "Scene \<Rightarrow> Scene" where
  "send_AsyncLoadProgress s =
     s\<lparr>emitted := emitted s @
        [SendEvent E_ASYNCLOADPROGRESS
           [GetAsyncProgress s,
            real (unat (loadedNodes (asyncProgress s))),
            real (unat (totalNodes (asyncProgress s))),
            real (unat (loadedResources (asyncProgress s))),
            real (unat (totalResources (asyncProgress s)))]]\<rparr>"


text \<open>
  The loop of \<open>UpdateAsyncLoading\<close>. It finishes the load when all nodes are loaded,
  and otherwise loads one child, counts it and reads the timer: at or beyond the
  budget of \<open>asyncLoadingMs_ * 1000\<close> microseconds it breaks and the progress event
  is sent.
\<close>

function AsyncLoadingLoop :: "Externals \<Rightarrow> Params \<Rightarrow> Scene \<Rightarrow> fault + Scene" where
  "AsyncLoadingLoop x p s =
     (if totalNodes (asyncProgress s) \<le> loadedNodes (asyncProgress s)
      then Inr (FinishAsyncLoading x s)
      else
        (case load_next_child x p s of
           Inl e \<Rightarrow> Inl e
         | Inr s1 \<Rightarrow>
             let s2 = s1\<lparr>asyncProgress := (asyncProgress s1)
                          \<lparr>loadedNodes := loadedNodes (asyncProgress s1) + 1\<rparr>,
                        timer_reads := Suc (timer_reads s1)\<rparr>
             in if asyncLoadingMs s2 * 1000 \<le> GetUSec x (timer_reads s1)
                then Inr (send_AsyncLoadProgress s2)
                else AsyncLoadingLoop x p s2))"
  by pat_completeness auto
termination
proof (relation "measure (\<lambda>(x, p, s). unat (totalNodes (asyncProgress s))
                                       - unat (loadedNodes (asyncProgress s)))")
  show "wf (measure (\<lambda>(x, p, s). unat (totalNodes (asyncProgress s))
                                   - unat (loadedNodes (asyncProgress s))))"
    by simp
next
  fix x :: Externals and p :: Params and s s1 s2 :: Scene
  assume more: "\<not> totalNodes (asyncProgress s) \<le> loadedNodes (asyncProgress s)"
    and child: "load_next_child x p s = Inr s1"
    and s2: "s2 = s1\<lparr>asyncProgress := (asyncProgress s1)
                       \<lparr>loadedNodes := loadedNodes (asyncProgress s1) + 1\<rparr>,
                     timer_reads := Suc (timer_reads s1)\<rparr>"
  have same: "loadedNodes (asyncProgress s1) = loadedNodes (asyncProgress s)
              \<and> totalNodes (asyncProgress s1) = totalNodes (asyncProgress s)"
    using child
    by (auto simp: load_next_child_def Let_def split: if_splits option.splits prod.splits)
  from more have lt: "unat (loadedNodes (asyncProgress s)) < unat (totalNodes (asyncProgress s))"
    by (simp add: word_less_nat_alt not_le)
  have "loadedNodes (asyncProgress s) + 1 \<noteq> 0"
    using more
    by (metis (no_types, lifting) add.assoc add.right_inverse add_cancel_left_left
        word_order.extremum_strict not_le)
  then have "unat (loadedNodes (asyncProgress s) + 1) = Suc (unat (loadedNodes (asyncProgress s)))"
    using unatSuc [of "loadedNodes (asyncProgress s)"] by (simp add: add.commute)
  with same lt s2
  show "((x, p, s2), (x, p, s)) \<in> measure (\<lambda>(x, p, s). unat (totalNodes (asyncProgress s))
                                                        - unat (loadedNodes (asyncProgress s)))"
    by simp
qed

definition UpdateAsyncLoading :: "Externals \<Rightarrow> Params \<Rightarrow> Scene \<Rightarrow> fault + Scene" where
  "UpdateAsyncLoading x p s =
     (if loadedResources (asyncProgress s) < totalResources (asyncProgress s) then Inr s
      else AsyncLoadingLoop x p s)"

text \<open>
  Modelled from the spec: \<open>Clamp\<close> of math\_defs.h, which is not under src/; the
  smoothing constant is "clamped to [0,1]".
\<close>

definition Clamp :: "real \<Rightarrow> real \<Rightarrow> real \<Rightarrow> real" where
  "Clamp v lo hi = (if v < lo then lo else if hi < v then hi else v)"

text \<open>
  \<open>Update\<close>: one quota of loading when a load is active, with an early return when the
  load mode is above \<open>LOAD_RESOURCES_ONLY\<close>; then the scaled time step, the events and
  signals in the order of the source, and the elapsed time. The products, the
  difference and the sum are operations on floats.
\<close>

definition Update :: "Externals \<Rightarrow> Params \<Rightarrow> real \<Rightarrow> Scene \<Rightarrow> fault + Scene" where
  "Update x p timeStep s =
     (case (if asyncLoading s then UpdateAsyncLoading x p s else Inr s) of
        Inl e \<Rightarrow> Inl e
      | Inr s1 \<Rightarrow>
          if asyncLoading s
             \<and> LoadMode_value (mode (asyncProgress s1)) > LoadMode_value LOAD_RESOURCES_ONLY
          then Inr s1
          else
            let timeStep' = float_mul timeStep (timeScale (content s1));
                constant = float_sub 1
                  (Clamp (powf x 2 (float_mul (- timeStep') (smoothing_constant (content s1)))) 0 1);
                squaredSnapThreshold =
                  float_mul (snap_threshold (content s1)) (snap_threshold (content s1))
            in Inr (s1\<lparr>emitted := emitted s1 @
                         [SendEvent E_SCENEUPDATE [timeStep'],
                          Emit scene_update timeStep',
                          SendEvent E_ATTRIBUTEANIMATIONUPDATE [timeStep'],
                          SendEvent E_SCENESUBSYSTEMUPDATE [timeStep'],
                          SendEvent E_UPDATESMOOTHING [constant, squaredSnapThreshold],
                          SendEvent E_SCENEPOSTUPDATE [timeStep'],
                          Emit scene_post_update timeStep'],
                       content := (content s1)
                         \<lparr>elapsedTime := float_add (elapsedTime (content s1)) timeStep'\<rparr>\<rparr>))"



definition handle_update :: "Externals \<Rightarrow> Params \<Rightarrow> real \<Rightarrow> Scene \<Rightarrow> fault + Scene" where
  "handle_update x p timeStep s = (if \<not> updateEnabled s then Inr s else Update x p timeStep s)"


section \<open>Scene: clearing and loading from a binary stream\<close>

definition write_log :: "scene_log \<Rightarrow> Scene \<Rightarrow> Scene" where
  "write_log m s = s\<lparr>content := (content s)\<lparr>logged := logged (content s) @ [m]\<rparr>\<rparr>"

text \<open>
  \<open>Clear\<close>: any load is stopped, the children and components are removed, a complete
  clear also forgets the variable names, the name, the file name and the checksum, and
  the id counters of the cleared kinds go back to the first id of their range.
\<close>

definition Clear :: "Externals \<Rightarrow> Params \<Rightarrow> bool \<Rightarrow> bool \<Rightarrow> Scene \<Rightarrow> Scene" where
  "Clear x p clearReplicated clearLocal s =
     (let s1 = StopAsyncLoading s;
          c1 = RemoveComponents x clearReplicated clearLocal
                 (RemoveChildren x clearReplicated clearLocal True (content s1));
          s2 = (if clearReplicated \<and> clearLocal
                then s1\<lparr>content := c1\<lparr>varNames := Map.empty, name := []\<rparr>,
                        fileName := [], checksum := 0\<rparr>
                else s1\<lparr>content := c1\<rparr>);
          c2 = content s2;
          c3 = (if clearReplicated
                then c2\<lparr>replicatedNodeID := FIRST_REPLICATED_ID p,
                        replicatedComponentID := FIRST_REPLICATED_ID p\<rparr>
                else c2);
          c4 = (if clearLocal
                then c3\<lparr>localNodeID := FIRST_LOCAL_ID p, localComponentID := FIRST_LOCAL_ID p\<rparr>
                else c3)
      in s2\<lparr>content := c4\<rparr>)"

text \<open>
  Modelled from the spec: \<open>Node::Load(Deserializer&)\<close> and the child part of
  \<open>Node::Load(Deserializer&, SceneResolver&, bool)\<close> of node.cpp, which is not under
  src/. A serialized node is "the root node's attributes, its components, then a
  variable-length-encoded child count and recursively each child subtree in the same
  shape"; a child is loaded by "reading id, creating node with that id registered in
  the resolver, loading its attributes/components/children"; a malformed stream makes
  the "load operation abort" and "return failure"; afterwards the resolver "rewrites
  references" and the attributes are applied. The attributes and components of one
  node are read by the parameter \<open>Node_Load\<close> with \<open>loadChildren\<close> false, a child with
  its subtree by \<open>Node_Load\<close> with \<open>loadChildren\<close> true.
\<close>

fun load_children ::
  "Externals \<Rightarrow> Params \<Rightarrow> nat \<Rightarrow> File \<Rightarrow> SceneResolver \<Rightarrow> SceneContent
     \<Rightarrow> bool \<times> File \<times> SceneResolver \<times> SceneContent" where
  "load_children x p 0 f r c = (True, f, r, c)"
| "load_children x p (Suc n) f r c =
     (let (nodeID, f1) = ReadU32 x f;
          (newNode, c1) = create_child x nodeID
             (if IsReplicatedID p nodeID then REPLICATED else LOCAL) c;
          r1 = AddNode nodeID newNode r;
          (ok, f2, r2, c2) = Node_Load x newNode True f1 r1 c1
      in if ok then load_children x p n f2 r2 c2 else (False, f2, r2, c2))"

definition Node_Load_hierarchy ::
  "Externals \<Rightarrow> Params \<Rightarrow> addr \<Rightarrow> File \<Rightarrow> SceneResolver \<Rightarrow> SceneContent
     \<Rightarrow> bool \<times> File \<times> SceneResolver \<times> SceneContent" where
  "Node_Load_hierarchy x p node f r c =
     (let (ok, f1, r1, c1) = Node_Load x node False f r c
      in if \<not> ok then (False, f1, r1, c1)
         else let (n, f2) = ReadVLE x f1 in load_children x p (unat n) f2 r1 c1)"

definition Node_Load_source ::
  "Externals \<Rightarrow> Params \<Rightarrow> addr \<Rightarrow> File \<Rightarrow> SceneContent \<Rightarrow> bool \<times> File \<times> SceneContent" where
  "Node_Load_source x p node source c =
     (let (nodeID, f1) = ReadU32 x source;
          r = AddNode nodeID node Reset;
          (success, f2, r1, c1) = Node_Load_hierarchy x p node f1 r c
      in if success then (True, f2, apply_attributes x (Resolve x r1 c1)) else (False, f2, c1))"

text \<open>
  \<open>Scene::Load\<close>. The stream is passed by reference: the result holds it as the
  readings leave it.
\<close>

definition Load :: "Externals \<Rightarrow> Params \<Rightarrow> File \<Rightarrow> Scene \<Rightarrow> bool \<times> File \<times> Scene" where
  "Load x p source s =
     (let s1 = StopAsyncLoading s;
          (fileID, f1) = ReadFileID x source
      in if fileID \<noteq> ''USCN'' then (False, f1, write_log (NotValidSceneFile (file_name f1)) s1)
         else
           let s2 = Clear x p True True (write_log (LoadingSceneFrom (file_name f1)) s1);
               (ok, f2, c) = Node_Load_source x p (this (content s2)) f1 (content s2)
           in if ok then (True, f2, FinishLoading (Some f2) (s2\<lparr>content := c\<rparr>))
              else (False, f2, s2\<lparr>content := c\<rparr>))"

text \<open>
  \<open>Scene::LoadAsync\<close>. The file object is shared with \<open>asyncProgress_.file_\<close>, so the
  file of the progress is the file as the readings of \<open>LoadAsync\<close> leave it.
  \<open>queue_resource\<close> is what \<open>PreloadResources\<close> does for each resource whose
  background loading could be started.
\<close>

definition queue_resource :: "StringHash \<Rightarrow> AsyncProgress \<Rightarrow> AsyncProgress" where
  "queue_resource nameHash ap =
     ap\<lparr>totalResources := totalResources ap + 1, resources := insert nameHash (resources ap)\<rparr>"

definition LoadAsync ::
  "Externals \<Rightarrow> Params \<Rightarrow> File option \<Rightarrow> LoadMode \<Rightarrow> Scene \<Rightarrow> bool \<times> Scene" where
  "LoadAsync x p file_arg mode_arg s =
     (case file_arg of
        None \<Rightarrow> (False, write_log NullFile s)
      | Some file0 \<Rightarrow>
          let s1 = StopAsyncLoading s;
              (fileID, f1) = ReadFileID x file0;
              isSceneFile = (fileID = ''USCN'');
              scene_mode = (LoadMode_value mode_arg > LoadMode_value LOAD_RESOURCES_ONLY)
          in if \<not> isSceneFile \<and> scene_mode
             then (False, write_log (NotValidSceneFile (file_name f1)) s1)
             else
               let f2 = (if \<not> isSceneFile then Seek x 0 f1 else f1);
                   s2 = (if scene_mode
                         then Clear x p True True (write_log (LoadingSceneFrom (file_name f2)) s1)
                         else s1);
                   ap = (asyncProgress s2)
                          \<lparr>file_ref := Some f2, mode := mode_arg,
                           loadedNodes := 0, totalNodes := 0,
                           loadedResources := 0, totalResources := 0, resources := {}\<rparr>;
                   s3 = s2\<lparr>asyncLoading := True, asyncProgress := ap\<rparr>
               in if scene_mode
                  then
                    let (ap1, f3) =
                          (if mode_arg \<noteq> LOAD_SCENE
                           then let currentPos = file_position f2;
                                    (names, fp) = PreloadResources x f2 isSceneFile
                                in (fold queue_resource names ap, Seek x currentPos fp)
                           else (ap, f2));
                        (nodeID, f4) = ReadU32 x f3;
                        r = AddNode nodeID (this (content s3)) (resolver s3);
                        (ok, f5, r1, c1) = Node_Load x (this (content s3)) False f4 r (content s3)
                    in if \<not> ok
                       then (False, StopAsyncLoading
                                      (s3\<lparr>content := c1, resolver := r1,
                                          asyncProgress := ap1\<lparr>file_ref := Some f5\<rparr>\<rparr>))
                       else
                         let (n, f6) = ReadVLE x f5
                         in (True, s3\<lparr>content := c1, resolver := r1,
                                      asyncProgress := ap1\<lparr>file_ref := Some f6, totalNodes := n\<rparr>\<rparr>)
                  else
                    let s4 = write_log (PreloadingResourcesFrom (file_name f2)) s3;
                        (names, fp) = PreloadResources x f2 isSceneFile
                    in (True, s4\<lparr>asyncProgress :=
                                   (fold queue_resource names ap)\<lparr>file_ref := Some fp\<rparr>\<rparr>))"


section \<open>Vocabulary of the properties\<close>

text \<open>
  The id range, the table and the counter that belong to a kind of entity and a mode.
\<close>

definition range_first :: "Params \<Rightarrow> CreateMode \<Rightarrow> id32" where
  "range_first p m = (if m = REPLICATED then FIRST_REPLICATED_ID p else FIRST_LOCAL_ID p)"

definition range_last :: "Params \<Rightarrow> CreateMode \<Rightarrow> id32" where
  "range_last p m = (if m = REPLICATED then LAST_REPLICATED_ID p else LAST_LOCAL_ID p)"

definition nodes_of :: "CreateMode \<Rightarrow> SceneContent \<Rightarrow> (NodeId \<rightharpoonup> addr)" where
  "nodes_of m g = (if m = REPLICATED then replicatedNodes g else localNodes g)"

definition components_of :: "CreateMode \<Rightarrow> SceneContent \<Rightarrow> (ComponentId \<rightharpoonup> addr)" where
  "components_of m g = (if m = REPLICATED then replicatedComponents g else localComponents g)"

definition node_counter :: "CreateMode \<Rightarrow> SceneContent \<Rightarrow> NodeId" where
  "node_counter m g = (if m = REPLICATED then replicatedNodeID g else localNodeID g)"

definition component_counter :: "CreateMode \<Rightarrow> SceneContent \<Rightarrow> ComponentId" where
  "component_counter m g = (if m = REPLICATED then replicatedComponentID g else localComponentID g)"

text \<open>
  A node is in the scene, and live, when its \<open>scene_\<close> is this scene. A component is
  live when it carries an id and belongs to a node of the scene; 0 is the value of
  \<open>id_\<close> of a component without id, the one that \<open>ComponentRemoved\<close> leaves and that
  \<open>ComponentAdded\<close> replaces. The table that \<open>GetNode\<close> and \<open>NodeAdded\<close> choose for an
  id is \<open>node_table\<close> (and \<open>component_table\<close> for components); a node is registered
  when the table of its id holds it under its id. \<open>attributes\<close> collects the
  attribute members of the scene.
\<close>

definition in_scene :: "SceneContent \<Rightarrow> addr \<Rightarrow> bool" where
  "in_scene g a \<longleftrightarrow> node_scene g a = Some (this g)"

definition live_component :: "SceneContent \<Rightarrow> addr \<Rightarrow> bool" where
  "live_component g c \<longleftrightarrow>
     comp_id g c \<noteq> 0 \<and> (\<exists>n. in_scene g n \<and> Some c \<in> set (GetComponents g n))"

definition node_table :: "Params \<Rightarrow> SceneContent \<Rightarrow> NodeId \<Rightarrow> addr option" where
  "node_table p g k = (if IsReplicatedID p k then replicatedNodes g k else localNodes g k)"

definition component_table :: "Params \<Rightarrow> SceneContent \<Rightarrow> ComponentId \<Rightarrow> addr option" where
  "component_table p g k =
     (if IsReplicatedID p k then replicatedComponents g k else localComponents g k)"

definition registered :: "Params \<Rightarrow> SceneContent \<Rightarrow> addr \<Rightarrow> bool" where
  "registered p g a \<longleftrightarrow> node_table p g (node_id g a) = Some a"

definition attributes :: "SceneContent \<Rightarrow> real \<times> real \<times> real \<times> real \<times> string \<times> (string \<rightharpoonup> string)" where
  "attributes g =
     (timeScale g, elapsedTime g, smoothing_constant g, snap_threshold g, name g, varNames g)"


text \<open>
  The two functions \<open>NodeRemoved\<close> and \<open>NodeAdded\<close> in parts, for the proofs:
  \<open>remove_step\<close> is what \<open>NodeRemoved\<close> does to the node itself and \<open>remove_node\<close>
  adds the loop over its components; \<open>add_step\<close> is what \<open>NodeAdded\<close> does to the
  node itself: it detaches the node from another scene, sets the scene reference,
  settles the id, removes a different node registered under the id, and registers
  the node.
\<close>

definition remove_step :: "Params \<Rightarrow> addr \<Rightarrow> SceneContent \<Rightarrow> SceneContent" where
  "remove_step p a g =
     (let ident = node_id g a;
          g1 = (if IsReplicatedID p ident
                then g\<lparr>replicatedNodes := (replicatedNodes g)(ident := None)\<rparr>
                else g\<lparr>localNodes := (localNodes g)(ident := None)\<rparr>)
      in g1\<lparr>node_scene := (node_scene g1)(a := None),
            node_id := (node_id g1)(a := ResetScene_id p ident)\<rparr>)"

definition remove_node :: "Params \<Rightarrow> addr \<Rightarrow> SceneContent \<Rightarrow> SceneContent" where
  "remove_node p a g = fold (ComponentRemoved p) (GetComponents g a) (remove_step p a g)"

definition detach_old :: "Params \<Rightarrow> addr \<Rightarrow> SceneContent \<Rightarrow> SceneContent option" where
  "detach_old p a g =
     (case node_scene g a of
        Some oldScene \<Rightarrow> NodeRemoved_other p oldScene (Some a) g
      | None \<Rightarrow> Some g)"

definition assign_id :: "Params \<Rightarrow> addr \<Rightarrow> SceneContent \<Rightarrow> (NodeId \<times> SceneContent) option" where
  "assign_id p a g =
     (if node_id g a = 0
      then map_option (\<lambda>(ident, g'). (ident, g'\<lparr>node_id := (node_id g')(a := ident)\<rparr>))
             (GetFreeNodeID p REPLICATED g)
      else Some (node_id g a, g))"

definition overwrite :: "Params \<Rightarrow> addr \<Rightarrow> NodeId \<Rightarrow> SceneContent \<Rightarrow> SceneContent option" where
  "overwrite p a ident g =
     (case node_table p g ident of
        Some other \<Rightarrow>
          if other \<noteq> a
          then NodeRemoved p (Some other) (g\<lparr>logged := logged g @ [OverwritingNode ident]\<rparr>)
          else Some g
      | None \<Rightarrow> Some g)"

definition register :: "Params \<Rightarrow> addr \<Rightarrow> NodeId \<Rightarrow> SceneContent \<Rightarrow> SceneContent" where
  "register p a ident g =
     (if IsReplicatedID p ident
      then g\<lparr>replicatedNodes := (replicatedNodes g)(ident \<mapsto> a)\<rparr>
      else g\<lparr>localNodes := (localNodes g)(ident \<mapsto> a)\<rparr>)"

definition add_step :: "Params \<Rightarrow> addr \<Rightarrow> SceneContent \<Rightarrow> SceneContent option" where
  "add_step p a g =
     (case detach_old p a g of
        None \<Rightarrow> None
      | Some g0 \<Rightarrow>
          (case assign_id p a (g0\<lparr>node_scene := (node_scene g0)(a \<mapsto> this g0)\<rparr>) of
             None \<Rightarrow> None
           | Some (ident, g2) \<Rightarrow> map_option (register p a ident) (overwrite p a ident g2)))"

text \<open>
  The invariant of the node bookkeeping: every node that is in the scene is
  registered. The invariant of the component bookkeeping: a table holds a component
  only under the id of the component and in the table of that id, and every component
  of a node of the scene either has no id or is held by the table of its id. While a
  node \<open>a\<close> with the id \<open>i\<close> is being added, between the moment its scene reference is
  set and its registration, \<open>adding\<close> holds: every other node of the scene is
  registered, none of them has the id \<open>i\<close>, and \<open>a\<close> has it as long as it is in the
  scene.
\<close>

definition nodes_ok :: "Params \<Rightarrow> SceneContent \<Rightarrow> bool" where
  "nodes_ok p g \<longleftrightarrow> (\<forall>a. in_scene g a \<longrightarrow> registered p g a)"

definition settled :: "Params \<Rightarrow> SceneContent \<Rightarrow> addr \<Rightarrow> bool" where
  "settled p g c \<longleftrightarrow> comp_id g c = 0 \<or> component_table p g (comp_id g c) = Some c"

definition components_ok :: "Params \<Rightarrow> SceneContent \<Rightarrow> bool" where
  "components_ok p g \<longleftrightarrow>
     (\<forall>k c. replicatedComponents g k = Some c \<longrightarrow> IsReplicatedID p k \<and> comp_id g c = k)
     \<and> (\<forall>k c. localComponents g k = Some c \<longrightarrow> \<not> IsReplicatedID p k \<and> comp_id g c = k)
     \<and> (\<forall>n c. in_scene g n \<longrightarrow> Some c \<in> set (GetComponents g n) \<longrightarrow> settled p g c)"

definition adding :: "Params \<Rightarrow> addr \<Rightarrow> NodeId \<Rightarrow> SceneContent \<Rightarrow> bool" where
  "adding p a i g \<longleftrightarrow>
     (\<forall>b. b \<noteq> a \<longrightarrow> in_scene g b \<longrightarrow> registered p g b \<and> node_id g b \<noteq> i)
     \<and> (in_scene g a \<longrightarrow> node_id g a = i)"

text \<open>
  A new node has no scene, no components and no children; a new component has no id,
  belongs to no node and is held by no table.
\<close>

definition new_node :: "SceneContent \<Rightarrow> addr \<Rightarrow> bool" where
  "new_node g a \<longleftrightarrow> node_scene g a = None \<and> GetComponents g a = [] \<and> GetChildren g a = []"

definition new_component :: "SceneContent \<Rightarrow> addr \<Rightarrow> bool" where
  "new_component g c \<longleftrightarrow>
     comp_id g c = 0
     \<and> (\<forall>k. replicatedComponents g k \<noteq> Some c \<and> localComponents g k \<noteq> Some c)
     \<and> (\<forall>n. Some c \<notin> set (GetComponents g n))"

text \<open>
  The states a scene reaches. It is constructed over a store in which no node refers
  yet to the scene under construction; nodes of other scenes and nodes and components
  outside any scene may exist, with any ids and vectors. Then nodes and components
  are created and removed, with automatically assigned or explicit ids, under any
  parent; \<open>NodeAdded\<close> is called for a node without components and children that is
  outside the scene or in another scene, \<open>NodeRemoved\<close> for any node; and free ids
  are taken.
\<close>

inductive reach :: "Params \<Rightarrow> SceneContent \<Rightarrow> bool" for p :: Params where
  constructed:
    "\<forall>b. scenes b \<noteq> Some a \<Longrightarrow> Scene_ctor p a ids scenes cids comps kids = Some s
       \<Longrightarrow> reach p (content s)"
| create_child:
    "reach p g \<Longrightarrow> new_node g a \<Longrightarrow> Node_create_child p parent ident m a g = Some g'
       \<Longrightarrow> reach p g'"
| remove_child:
    "reach p g \<Longrightarrow> Node_remove_child p parent child g = Some g' \<Longrightarrow> reach p g'"
| create_component:
    "reach p g \<Longrightarrow> new_component g c \<Longrightarrow> Node_create_component p node ident m c g = Some g'
       \<Longrightarrow> reach p g'"
| remove_component:
    "reach p g \<Longrightarrow> reach p (Node_remove_component p node c g)"
| node_added:
    "reach p g \<Longrightarrow> GetComponents g a = [] \<Longrightarrow> GetChildren g a = []
       \<Longrightarrow> NodeAdded p (Some a) g = Some g' \<Longrightarrow> reach p g'"
| node_removed:
    "reach p g \<Longrightarrow> NodeRemoved p node g = Some g' \<Longrightarrow> reach p g'"
| free_node_id:
    "reach p g \<Longrightarrow> GetFreeNodeID p m g = Some (i, g') \<Longrightarrow> reach p g'"
| free_component_id:
    "reach p g \<Longrightarrow> GetFreeComponentID p m g = Some (i, g') \<Longrightarrow> reach p g'"

text \<open>The content of a scene that its constructor leaves behind.\<close>

definition ctor_content ::
  "Params \<Rightarrow> addr \<Rightarrow> (addr \<Rightarrow> NodeId) \<Rightarrow> (addr \<Rightarrow> addr option) \<Rightarrow> (addr \<Rightarrow> ComponentId)
     \<Rightarrow> (addr \<Rightarrow> addr option list) \<Rightarrow> (addr \<Rightarrow> addr option list) \<Rightarrow> SceneContent" where
  "ctor_content p a ids scenes cids comps kids =
     register p a (FIRST_REPLICATED_ID p)
       ((initial_content p a ids scenes cids comps kids)
          \<lparr>replicatedNodeID := FIRST_REPLICATED_ID p + 1,
           node_id := ids(a := FIRST_REPLICATED_ID p),
           node_scene := scenes(a \<mapsto> a)\<rparr>)"

section \<open>Example parameters and states\<close>

text \<open>
  A choice of the parameters: the replicated range is \<open>[1, 0xFFFFFF]\<close>, the local range
  \<open>[0x1000000, 0xFFFFFFFF]\<close>, an id is replicated when it is below the local range,
  \<open>ResetScene\<close> leaves the id 0, and \<open>M_EPSILON\<close> is the float nearest to one
  millionth, \<open>8796093 / 2 ^ 43\<close>.
\<close>

definition engine_params :: Params where
  "engine_params =
     \<lparr>FIRST_REPLICATED_ID = 1, LAST_REPLICATED_ID = 0xFFFFFF,
      FIRST_LOCAL_ID = 0x1000000, LAST_LOCAL_ID = 0xFFFFFFFF,
      IsReplicatedID = (\<lambda>i. i < 0x1000000),
      ResetScene_id = (\<lambda>i. 0),
      M_EPSILON = 8796093 / 2 ^ 43\<rparr>"

text \<open>
  The content of a scene at address 0 right after its construction over a store in
  which no object has an id, a scene, a component or a child: the scene holds the
  replicated id 1.
\<close>

definition constructed_content :: SceneContent where
  "constructed_content =
     (initial_content engine_params 0 (\<lambda>a. 0) (\<lambda>a. None) (\<lambda>a. 0) (\<lambda>a. []) (\<lambda>a. []))
       \<lparr>replicatedNodeID := 2,
        replicatedNodes := [1 \<mapsto> 0],
        node_id := (\<lambda>a. 0)(0 := 1),
        node_scene := (\<lambda>a. None)(0 \<mapsto> 0)\<rparr>"

text \<open>
  The same scene with every id of the replicated range in use: the node with id
  \<open>k\<close> lives at address \<open>k - 1\<close>.
\<close>

definition saturated_content :: SceneContent where
  "saturated_content =
     constructed_content
       \<lparr>replicatedNodes :=
          (\<lambda>k. if 1 \<le> k \<and> k \<le> 0xFFFFFF then Some (unat k - 1) else None),
        node_id := (\<lambda>a. of_nat (a + 1)),
        node_scene := (\<lambda>a. if a < 0xFFFFFF then Some 0 else None)\<rparr>"




text \<open>
  A scene in the middle of an asynchronous load of a file with two child nodes, the
  first of which is loaded.
\<close>

definition loading_scene :: Scene where
  "loading_scene =
     (initial_scene constructed_content)
       \<lparr>asyncLoading := True,
        asyncProgress :=
          \<lparr>file_ref = Some \<lparr>file_name = ''scene.bin'', file_checksum = 0,
                            file_data = [0x55, 0x53, 0x43, 0x4E, 1, 2, 3, 4], file_position = 7\<rparr>,
           xmlFile = None, jsonFile = None, xmlElement = [],
           jsonIndex = 0, mode = LOAD_SCENE, resources = {},
           loadedResources = 0, totalResources = 0,
           loadedNodes = 1, totalNodes = 2\<rparr>,
        resolver := \<lparr>nodes = [1 \<mapsto> 0, 3 \<mapsto> 1003], components = Map.empty\<rparr>\<rparr>"



section \<open>Properties of the string hash register\<close>

lemma strcmp_refl: "strcmp s s = 0"
  by (induction s) simp_all

lemma strcmp_eq_0: "strcmp s t = 0 \<Longrightarrow> s = t"
  by (induction s t rule: strcmp.induct) (simp_all split: if_splits)

lemma Compare_nocase_0: "(Compare s t False = 0) = (map to_lower s = map to_lower t)"
  using strcmp_eq_0 strcmp_refl by (auto simp: Compare_def)

text \<open>
  C6, as stated, fails: a hash registered for \<open>''Foo''\<close> and requested again for the
  different string \<open>''foo''\<close> logs no warning, because the stored string is compared
  without regard to letter case.
\<close>

theorem RegisterString_case_counterexample:
  "strings \<lparr>strings = [7 \<mapsto> ''Foo''], warnings = []\<rparr> 7 = Some ''Foo''
   \<and> ''Foo'' \<noteq> ''foo''
   \<and> warnings (snd (RegisterString 7 ''foo'' \<lparr>strings = [7 \<mapsto> ''Foo''], warnings = []\<rparr>)) = []"
  by (simp add: RegisterString_def Compare_def to_lower_def)

text \<open>
  C6, amended: \<open>RegisterString\<close> always returns the hash of the requested name,
  unchanged (the given hash, or the one computed from the name). If the hash is not
  registered, the pair of hash and name is added and nothing is logged. If the hash
  is registered, the stored string is kept, and a warning is logged exactly when the
  stored string and the name differ in more than the case of their letters. There is
  no failing outcome.
\<close>

theorem RegisterString_contract:
  "fst (RegisterString hash string r) = hash
   \<and> fst (RegisterString_name calc string r) = calc string
   \<and> (strings r hash = None \<longrightarrow>
        snd (RegisterString hash string r) = r\<lparr>strings := (strings r)(hash \<mapsto> string)\<rparr>)
   \<and> (\<forall>stored. strings r hash = Some stored \<longrightarrow>
        strings (snd (RegisterString hash string r)) = strings r
        \<and> warnings (snd (RegisterString hash string r)) =
            (if map to_lower stored \<noteq> map to_lower string
             then warnings r @ [HashCollision string stored hash] else warnings r))"
  by (simp add: RegisterString_def RegisterString_name_def Compare_nocase_0 split: option.splits)

theorem RegisterString_contract_witness:
  "snd (RegisterString 7 ''Bar'' \<lparr>strings = Map.empty, warnings = []\<rparr>)
     = \<lparr>strings = [7 \<mapsto> ''Bar''], warnings = []\<rparr>
   \<and> warnings (snd (RegisterString 7 ''Foo'' \<lparr>strings = [7 \<mapsto> ''Bar''], warnings = []\<rparr>))
     = [HashCollision ''Foo'' ''Bar'' 7]
   \<and> strings (snd (RegisterString 7 ''Foo'' \<lparr>strings = [7 \<mapsto> ''Bar''], warnings = []\<rparr>)) 7
     = Some ''Bar''"
  using RegisterString_contract [of 7 "''Bar''" "\<lparr>strings = Map.empty, warnings = []\<rparr>"]
        RegisterString_contract [of 7 "''Foo''" "\<lparr>strings = [7 \<mapsto> ''Bar''], warnings = []\<rparr>"]
  by (simp add: to_lower_def)

section \<open>Properties of stopping a load and of the progress\<close>

text \<open>
  C7, as stated, fails: \<open>StopAsyncLoading\<close> leaves the four progress counters as they
  are. In the scene that has loaded one node of two, they are not all zero after the
  stop.
\<close>

theorem StopAsyncLoading_counters_counterexample:
  "\<not> (loadedNodes (asyncProgress (StopAsyncLoading loading_scene)) = 0
      \<and> totalNodes (asyncProgress (StopAsyncLoading loading_scene)) = 0
      \<and> loadedResources (asyncProgress (StopAsyncLoading loading_scene)) = 0
      \<and> totalResources (asyncProgress (StopAsyncLoading loading_scene)) = 0)"
  by (simp add: StopAsyncLoading_def loading_scene_def)

text \<open>
  C7, amended: after \<open>StopAsyncLoading\<close> the async-loading flag is false, the maps of
  the resolver are empty, the references to the file, the XML file and the JSON file
  are released, the XML position, the JSON index and the set of awaited resources are
  cleared; the four progress counters keep their values; and the content of the scene,
  with every node already materialised, is unchanged.
\<close>

theorem StopAsyncLoading_effect:
  "asyncLoading (StopAsyncLoading s) = False
   \<and> nodes (resolver (StopAsyncLoading s)) = Map.empty
   \<and> components (resolver (StopAsyncLoading s)) = Map.empty
   \<and> file_ref (asyncProgress (StopAsyncLoading s)) = None
   \<and> xmlFile (asyncProgress (StopAsyncLoading s)) = None
   \<and> jsonFile (asyncProgress (StopAsyncLoading s)) = None
   \<and> xmlElement (asyncProgress (StopAsyncLoading s)) = []
   \<and> jsonIndex (asyncProgress (StopAsyncLoading s)) = 0
   \<and> resources (asyncProgress (StopAsyncLoading s)) = {}
   \<and> loadedNodes (asyncProgress (StopAsyncLoading s)) = loadedNodes (asyncProgress s)
   \<and> totalNodes (asyncProgress (StopAsyncLoading s)) = totalNodes (asyncProgress s)
   \<and> loadedResources (asyncProgress (StopAsyncLoading s)) = loadedResources (asyncProgress s)
   \<and> totalResources (asyncProgress (StopAsyncLoading s)) = totalResources (asyncProgress s)
   \<and> content (StopAsyncLoading s) = content s"
  by (simp add: StopAsyncLoading_def Reset_def)



section \<open>Properties of the per-frame update\<close>







section \<open>Properties of the free-id scan\<close>


lemma unat_inc_less:
  fixes a b :: "32 word"
  assumes "a < b"
  shows "unat (a + 1) = Suc (unat a)"
proof -
  have "a + 1 \<noteq> 0"
    using assms
    by (metis (no_types, lifting) add.assoc add.right_inverse add_cancel_left_left
        word_order.extremum_strict)
  then show ?thesis
    using unatSuc [of a] by (simp add: add.commute)
qed

lemma word_inc_range:
  fixes cur :: "32 word"
  assumes "f \<le> cur" "cur < l"
  shows "f \<le> cur + 1 \<and> cur + 1 \<le> l"
  using assms unat_inc_less [OF assms(2)]
  by (simp add: word_le_nat_alt word_less_nat_alt)

lemma scan_not_contained:
  assumes "free_id_scan f l c cur = Some r"
  shows "\<not> c (fst r)"
proof (rule free_id_scan.raw_induct [where P = "\<lambda>f l c cur r. \<not> c (fst r)", OF _ assms])
  fix scan :: "id32 \<Rightarrow> id32 \<Rightarrow> (id32 \<Rightarrow> bool) \<Rightarrow> id32 \<Rightarrow> (id32 \<times> id32) option"
  fix f l c cur r
  assume IH: "\<And>f l c cur r. scan f l c cur = Some r \<Longrightarrow> \<not> c (fst r)"
    and step: "(let ret = cur; counter' = (if cur < l then cur + 1 else f)
                in if \<not> c ret then Some (ret, counter') else scan f l c counter') = Some r"
  show "\<not> c (fst r)"
  proof (cases "c cur")
    case False
    with step show ?thesis by (auto simp: Let_def)
  next
    case True
    with step have "scan f l c (if cur < l then cur + 1 else f) = Some r"
      by (simp add: Let_def)
    then show ?thesis by (rule IH)
  qed
qed

lemma scan_in_range:
  assumes "free_id_scan f l c cur = Some r"
  shows "f \<le> l \<longrightarrow> f \<le> cur \<longrightarrow> cur \<le> l \<longrightarrow>
         f \<le> fst r \<and> fst r \<le> l \<and> f \<le> snd r \<and> snd r \<le> l"
proof (rule free_id_scan.raw_induct [where P = "\<lambda>f l c cur r. f \<le> l \<longrightarrow> f \<le> cur \<longrightarrow> cur \<le> l \<longrightarrow>
         f \<le> fst r \<and> fst r \<le> l \<and> f \<le> snd r \<and> snd r \<le> l", OF _ assms])
  fix scan :: "id32 \<Rightarrow> id32 \<Rightarrow> (id32 \<Rightarrow> bool) \<Rightarrow> id32 \<Rightarrow> (id32 \<times> id32) option"
  fix f l c cur r
  assume IH: "\<And>f l c cur r. scan f l c cur = Some r \<Longrightarrow> f \<le> l \<longrightarrow> f \<le> cur \<longrightarrow> cur \<le> l \<longrightarrow>
         f \<le> fst r \<and> fst r \<le> l \<and> f \<le> snd r \<and> snd r \<le> l"
    and step: "(let ret = cur; counter' = (if cur < l then cur + 1 else f)
                in if \<not> c ret then Some (ret, counter') else scan f l c counter') = Some r"
  show "f \<le> l \<longrightarrow> f \<le> cur \<longrightarrow> cur \<le> l \<longrightarrow>
         f \<le> fst r \<and> fst r \<le> l \<and> f \<le> snd r \<and> snd r \<le> l"
  proof (intro impI)
    assume fl: "f \<le> l" and fc: "f \<le> cur" and cl: "cur \<le> l"
    have nx: "f \<le> (if cur < l then cur + 1 else f) \<and> (if cur < l then cur + 1 else f) \<le> l"
      using fl fc cl word_inc_range [of f cur l] by auto
    show "f \<le> fst r \<and> fst r \<le> l \<and> f \<le> snd r \<and> snd r \<le> l"
    proof (cases "c cur")
      case False
      with step have "r = (cur, if cur < l then cur + 1 else f)" by (simp add: Let_def)
      with fc cl nx show ?thesis by simp
    next
      case True
      with step have "scan f l c (if cur < l then cur + 1 else f) = Some r"
        by (simp add: Let_def)
      from IH [OF this] fl nx show ?thesis by blast
    qed
  qed
qed

text \<open>termination\<close>

lemma scan_terminates_aux:
  fixes f l :: id32
  assumes free: "\<not> c k" and kf: "f \<le> k" and kl: "k \<le> l"
  shows "\<exists>r. free_id_scan f l c cur = Some r"
proof (induction "if cur \<le> k then unat k - unat cur
                  else if cur \<le> l then unat l - unat cur + 1 + (unat k - unat f)
                  else 1 + (unat k - unat f)" arbitrary: cur rule: less_induct)
  case less
  show ?case
  proof (cases "c cur")
    case False
    then show ?thesis by (subst free_id_scan.simps) (simp add: Let_def)
  next
    case True
    let ?n = "if cur < l then cur + 1 else f"
    have "\<exists>r. free_id_scan f l c ?n = Some r"
    proof (rule less.hyps)
      show "(if ?n \<le> k then unat k - unat ?n
             else if ?n \<le> l then unat l - unat ?n + 1 + (unat k - unat f)
             else 1 + (unat k - unat f))
            < (if cur \<le> k then unat k - unat cur
               else if cur \<le> l then unat l - unat cur + 1 + (unat k - unat f)
               else 1 + (unat k - unat f))"
      proof (cases "cur < l")
        case cl: True
        then have s: "unat (cur + 1) = Suc (unat cur)"
          by (rule unat_inc_less)
        have ne: "cur \<noteq> k" using True free by auto
        show ?thesis
          using cl s ne kf kl
          by (auto simp: word_le_nat_alt word_less_nat_alt) (use word_unat_eq_iff in force)+
      next
        case cl: False
        have ne: "cur \<noteq> k" using True free by auto
        with cl kl have "\<not> cur \<le> k" by auto
        with cl kf kl show ?thesis
          by (auto simp: word_le_nat_alt word_less_nat_alt)
      qed
    qed
    with True show ?thesis by (subst free_id_scan.simps) (simp add: Let_def)
  qed
qed


lemma scan_saturated_aux:
  assumes "free_id_scan f l c cur = Some r"
  shows "\<not> ((\<forall>k. f \<le> k \<and> k \<le> l \<longrightarrow> c k) \<and> f \<le> cur \<and> cur \<le> l)"
proof (rule free_id_scan.raw_induct
    [where P = "\<lambda>f l c cur r. \<not> ((\<forall>k. f \<le> k \<and> k \<le> l \<longrightarrow> c k) \<and> f \<le> cur \<and> cur \<le> l)",
      OF _ assms])
  fix scan :: "id32 \<Rightarrow> id32 \<Rightarrow> (id32 \<Rightarrow> bool) \<Rightarrow> id32 \<Rightarrow> (id32 \<times> id32) option"
  fix f l c cur r
  assume IH: "\<And>f l c cur r. scan f l c cur = Some r \<Longrightarrow>
                \<not> ((\<forall>k. f \<le> k \<and> k \<le> l \<longrightarrow> c k) \<and> f \<le> cur \<and> cur \<le> l)"
    and step: "(let ret = cur; counter' = (if cur < l then cur + 1 else f)
                in if \<not> c ret then Some (ret, counter') else scan f l c counter') = Some r"
  show "\<not> ((\<forall>k. f \<le> k \<and> k \<le> l \<longrightarrow> c k) \<and> f \<le> cur \<and> cur \<le> l)"
  proof
    assume sat: "(\<forall>k. f \<le> k \<and> k \<le> l \<longrightarrow> c k) \<and> f \<le> cur \<and> cur \<le> l"
    then have "c cur" by blast
    with step have "scan f l c (if cur < l then cur + 1 else f) = Some r"
      by (simp add: Let_def)
    from IH [OF this] sat word_inc_range [of f cur l] show False
      by (auto split: if_splits)
  qed
qed

lemma scan_saturated:
  "\<forall>k. f \<le> k \<and> k \<le> l \<longrightarrow> c k \<Longrightarrow> f \<le> cur \<Longrightarrow> cur \<le> l \<Longrightarrow> free_id_scan f l c cur = None"
  using scan_saturated_aux [of f l c cur] by (cases "free_id_scan f l c cur") auto


lemma GetFreeNodeID_scan:
  "GetFreeNodeID p m g =
     map_option (\<lambda>(ret, counter).
        (ret, if m = REPLICATED then g\<lparr>replicatedNodeID := counter\<rparr> else g\<lparr>localNodeID := counter\<rparr>))
       (free_id_scan (range_first p m) (range_last p m) (\<lambda>k. nodes_of m g k \<noteq> None)
          (node_counter m g))"
  by (simp add: GetFreeNodeID_def range_first_def range_last_def nodes_of_def node_counter_def)

lemma GetFreeComponentID_scan:
  "GetFreeComponentID p m g =
     map_option (\<lambda>(ret, counter).
        (ret, if m = REPLICATED then g\<lparr>replicatedComponentID := counter\<rparr>
              else g\<lparr>localComponentID := counter\<rparr>))
       (free_id_scan (range_first p m) (range_last p m) (\<lambda>k. components_of m g k \<noteq> None)
          (component_counter m g))"
  by (simp add: GetFreeComponentID_def range_first_def range_last_def components_of_def
        component_counter_def)

lemma GetFreeNodeID_free:
  "GetFreeNodeID p m g = Some (i, g') \<Longrightarrow> nodes_of m g i = None"
  using scan_not_contained
  by (fastforce simp: GetFreeNodeID_scan)

lemma GetFreeComponentID_free:
  "GetFreeComponentID p m g = Some (i, g') \<Longrightarrow> components_of m g i = None"
  using scan_not_contained
  by (fastforce simp: GetFreeComponentID_scan)

text \<open>
  C2, amended: for either mode, \<open>GetFreeNodeID\<close> and \<open>GetFreeComponentID\<close> return
  whenever some id of the range of the mode is absent from the table of the mode, and
  the id they return is absent from that table. There is no saturation check: when
  every id of the range is in the table and the counter is in the range, the scan
  does not return.
\<close>

theorem free_id_scan_termination:
  "((\<exists>k. range_first p m \<le> k \<and> k \<le> range_last p m \<and> nodes_of m g k = None)
      \<longrightarrow> (\<exists>i g'. GetFreeNodeID p m g = Some (i, g') \<and> nodes_of m g i = None))
   \<and> ((\<exists>k. range_first p m \<le> k \<and> k \<le> range_last p m \<and> components_of m g k = None)
      \<longrightarrow> (\<exists>i g'. GetFreeComponentID p m g = Some (i, g') \<and> components_of m g i = None))
   \<and> ((\<forall>k. range_first p m \<le> k \<and> k \<le> range_last p m \<longrightarrow> nodes_of m g k \<noteq> None)
        \<and> range_first p m \<le> node_counter m g \<and> node_counter m g \<le> range_last p m
      \<longrightarrow> GetFreeNodeID p m g = None)
   \<and> ((\<forall>k. range_first p m \<le> k \<and> k \<le> range_last p m \<longrightarrow> components_of m g k \<noteq> None)
        \<and> range_first p m \<le> component_counter m g \<and> component_counter m g \<le> range_last p m
      \<longrightarrow> GetFreeComponentID p m g = None)"
proof (intro conjI impI)
  assume "\<exists>k. range_first p m \<le> k \<and> k \<le> range_last p m \<and> nodes_of m g k = None"
  then obtain k where "range_first p m \<le> k" "k \<le> range_last p m" "\<not> nodes_of m g k \<noteq> None"
    by auto
  from scan_terminates_aux [where c = "\<lambda>k. nodes_of m g k \<noteq> None" and k = k
      and f = "range_first p m" and l = "range_last p m" and cur = "node_counter m g"] this
  obtain r where "free_id_scan (range_first p m) (range_last p m) (\<lambda>k. nodes_of m g k \<noteq> None)
                    (node_counter m g) = Some r" by blast
  then obtain i g' where "GetFreeNodeID p m g = Some (i, g')"
    by (cases r) (simp add: GetFreeNodeID_scan)
  then show "\<exists>i g'. GetFreeNodeID p m g = Some (i, g') \<and> nodes_of m g i = None"
    using GetFreeNodeID_free by blast
next
  assume "\<exists>k. range_first p m \<le> k \<and> k \<le> range_last p m \<and> components_of m g k = None"
  then obtain k where "range_first p m \<le> k" "k \<le> range_last p m"
      "\<not> components_of m g k \<noteq> None"
    by auto
  from scan_terminates_aux [where c = "\<lambda>k. components_of m g k \<noteq> None" and k = k
      and f = "range_first p m" and l = "range_last p m" and cur = "component_counter m g"] this
  obtain r where "free_id_scan (range_first p m) (range_last p m)
                    (\<lambda>k. components_of m g k \<noteq> None) (component_counter m g) = Some r" by blast
  then obtain i g' where "GetFreeComponentID p m g = Some (i, g')"
    by (cases r) (simp add: GetFreeComponentID_scan)
  then show "\<exists>i g'. GetFreeComponentID p m g = Some (i, g') \<and> components_of m g i = None"
    using GetFreeComponentID_free by blast
next
  assume "(\<forall>k. range_first p m \<le> k \<and> k \<le> range_last p m \<longrightarrow> nodes_of m g k \<noteq> None)
        \<and> range_first p m \<le> node_counter m g \<and> node_counter m g \<le> range_last p m"
  then show "GetFreeNodeID p m g = None"
    by (simp add: GetFreeNodeID_scan scan_saturated)
next
  assume "(\<forall>k. range_first p m \<le> k \<and> k \<le> range_last p m \<longrightarrow> components_of m g k \<noteq> None)
        \<and> range_first p m \<le> component_counter m g \<and> component_counter m g \<le> range_last p m"
  then show "GetFreeComponentID p m g = None"
    by (simp add: GetFreeComponentID_scan scan_saturated)
qed

text \<open>
  C2, as stated, fails: with every id of the replicated range in use by a node,
  \<open>GetFreeNodeID(REPLICATED)\<close> does not return; it neither terminates nor reports
  an error.
\<close>

theorem GetFreeNodeID_saturated_counterexample:
  "GetFreeNodeID engine_params REPLICATED saturated_content = None"
proof -
  have "free_id_scan 1 0xFFFFFF (\<lambda>k. replicatedNodes saturated_content k \<noteq> None) 2 = None"
    by (rule scan_saturated) (simp_all add: saturated_content_def)
  then show ?thesis
    by (simp add: GetFreeNodeID_def engine_params_def saturated_content_def constructed_content_def)
qed

theorem free_id_scan_termination_witness:
  "(\<exists>i g'. GetFreeNodeID engine_params REPLICATED constructed_content = Some (i, g')
       \<and> replicatedNodes constructed_content i = None)
   \<and> (\<exists>i g'. GetFreeComponentID engine_params LOCAL constructed_content = Some (i, g')
       \<and> localComponents constructed_content i = None)
   \<and> GetFreeNodeID engine_params REPLICATED saturated_content = None"
proof -
  have a: "\<exists>k. range_first engine_params REPLICATED \<le> k \<and> k \<le> range_last engine_params REPLICATED
             \<and> nodes_of REPLICATED constructed_content k = None"
    by (rule exI [of _ 2])
      (simp add: range_first_def range_last_def nodes_of_def engine_params_def constructed_content_def)
  have b: "\<exists>k. range_first engine_params LOCAL \<le> k \<and> k \<le> range_last engine_params LOCAL
             \<and> components_of LOCAL constructed_content k = None"
    by (rule exI [of _ "0x1000000"])
      (simp add: range_first_def range_last_def components_of_def engine_params_def
         constructed_content_def initial_content_def)
  have c: "(\<forall>k. range_first engine_params REPLICATED \<le> k \<and> k \<le> range_last engine_params REPLICATED
                 \<longrightarrow> nodes_of REPLICATED saturated_content k \<noteq> None)
           \<and> range_first engine_params REPLICATED \<le> node_counter REPLICATED saturated_content
           \<and> node_counter REPLICATED saturated_content \<le> range_last engine_params REPLICATED"
    by (simp add: range_first_def range_last_def nodes_of_def node_counter_def engine_params_def
         saturated_content_def constructed_content_def)
  show ?thesis
    using a b c
      free_id_scan_termination [of engine_params REPLICATED constructed_content]
      free_id_scan_termination [of engine_params LOCAL constructed_content]
      free_id_scan_termination [of engine_params REPLICATED saturated_content]
    by (simp add: nodes_of_def components_of_def)
qed


section \<open>The structure of adding and removing nodes\<close>

lemma for_each_preserves:
  assumes "for_each f xs s = Some s'"
    and "\<And>x s s'. x \<in> set xs \<Longrightarrow> Q s \<Longrightarrow> f x s = Some s' \<Longrightarrow> Q s'"
    and "Q s"
  shows "Q s'"
  using assms
proof (induction xs arbitrary: s)
  case Nil
  then show ?case by simp
next
  case (Cons x xs)
  from Cons.prems(1) obtain s1 where 1: "f x s = Some s1" and 2: "for_each f xs s1 = Some s'"
    by (cases "f x s") auto
  have q1: "Q s1" using Cons.prems(2) [of x s s1] Cons.prems(3) 1 by simp
  show ?case
  proof (rule Cons.IH [OF 2])
    fix y t t'
    assume "y \<in> set xs" "Q t" "f y t = Some t'"
    then show "Q t'" using Cons.prems(2) [of y t t'] by simp
next
    show "Q s1" by (rule q1)
  qed
qed

lemma fold_preserves:
  "(\<And>x g. x \<in> set xs \<Longrightarrow> Q g \<Longrightarrow> Q (f x g)) \<Longrightarrow> Q g \<Longrightarrow> Q (fold f xs g)"
  by (induction xs arbitrary: g) simp_all

lemma ComponentRemoved_nodes:
  "this (ComponentRemoved p c g) = this g"
  "node_scene (ComponentRemoved p c g) = node_scene g"
  "node_id (ComponentRemoved p c g) = node_id g"
  "replicatedNodes (ComponentRemoved p c g) = replicatedNodes g"
  "localNodes (ComponentRemoved p c g) = localNodes g"
  "GetChildren (ComponentRemoved p c g) = GetChildren g"
  "GetComponents (ComponentRemoved p c g) = GetComponents g"
  "logged (ComponentRemoved p c g) = logged g"
  "attributes (ComponentRemoved p c g) = attributes g"
  by (simp_all add: ComponentRemoved_def attributes_def Let_def split: option.splits)

lemma fold_ComponentRemoved_nodes:
  "this (fold (ComponentRemoved p) cs g) = this g"
  "node_scene (fold (ComponentRemoved p) cs g) = node_scene g"
  "node_id (fold (ComponentRemoved p) cs g) = node_id g"
  "replicatedNodes (fold (ComponentRemoved p) cs g) = replicatedNodes g"
  "localNodes (fold (ComponentRemoved p) cs g) = localNodes g"
  "GetChildren (fold (ComponentRemoved p) cs g) = GetChildren g"
  "GetComponents (fold (ComponentRemoved p) cs g) = GetComponents g"
  "logged (fold (ComponentRemoved p) cs g) = logged g"
  "attributes (fold (ComponentRemoved p) cs g) = attributes g"
  by (induction cs arbitrary: g) (simp_all add: ComponentRemoved_nodes)

lemma remove_step_fields:
  "this (remove_step p a g) = this g"
  "node_scene (remove_step p a g) = (node_scene g)(a := None)"
  "node_id (remove_step p a g) = (node_id g)(a := ResetScene_id p (node_id g a))"
  "GetChildren (remove_step p a g) = GetChildren g"
  "GetComponents (remove_step p a g) = GetComponents g"
  "comp_id (remove_step p a g) = comp_id g"
  "replicatedComponents (remove_step p a g) = replicatedComponents g"
  "localComponents (remove_step p a g) = localComponents g"
  "logged (remove_step p a g) = logged g"
  "attributes (remove_step p a g) = attributes g"
  by (simp_all add: remove_step_def attributes_def Let_def)

lemma remove_step_table:
  "node_table p (remove_step p a g) k = (if k = node_id g a then None else node_table p g k)"
  by (cases "IsReplicatedID p (node_id g a)"; cases "IsReplicatedID p k")
    (auto simp: remove_step_def node_table_def Let_def)

lemma remove_node_fields:
  "this (remove_node p a g) = this g"
  "node_scene (remove_node p a g) = (node_scene g)(a := None)"
  "node_id (remove_node p a g) = (node_id g)(a := ResetScene_id p (node_id g a))"
  "GetChildren (remove_node p a g) = GetChildren g"
  "GetComponents (remove_node p a g) = GetComponents g"
  "logged (remove_node p a g) = logged g"
  "attributes (remove_node p a g) = attributes g"
  by (simp_all add: remove_node_def fold_ComponentRemoved_nodes remove_step_fields)

lemma remove_node_table:
  "node_table p (remove_node p a g) k = (if k = node_id g a then None else node_table p g k)"
proof -
  have "node_table p (remove_node p a g) k = node_table p (remove_step p a g) k"
    by (simp add: remove_node_def node_table_def fold_ComponentRemoved_nodes)
  then show ?thesis by (simp add: remove_step_table)
qed



lemma NodeRemoved_preserves:
  assumes step: "\<And>a g. Q g \<Longrightarrow> in_scene g a \<Longrightarrow> Q (remove_node p a g)"
    and run: "NodeRemoved p node g = Some g'"
    and start: "Q g"
  shows "Q g'"
proof -
  have "p = p \<longrightarrow> Q g \<longrightarrow> Q g'"
    apply (rule NodeRemoved.raw_induct [where P = "\<lambda>q node g g'. q = p \<longrightarrow> Q g \<longrightarrow> Q g'", OF _ run])
    subgoal premises prems for rm q node g g'
    proof (intro impI)
      assume q: "q = p" and Q: "Q g"
      note IH = prems(1) and body = prems(2)
      show "Q g'"
      proof (cases node)
        case None
        with body Q show ?thesis by simp
      next
        case (Some a)
        show ?thesis
        proof (cases "in_scene g a")
          case False
          with body Some Q show ?thesis by (simp add: in_scene_def)
        next
          case True
          with body Some q
          have fe: "for_each (rm p) (GetChildren g a) (remove_node p a g) = Some g'"
            by (cases "IsReplicatedID p (node_id g a)")
              (simp_all add: in_scene_def remove_node_def remove_step_def Let_def
                  fold_ComponentRemoved_nodes)
          show ?thesis
            by (rule for_each_preserves [OF fe]) (use IH step [OF Q True] in auto)
        qed
      qed
    qed
    done
  with start show ?thesis by simp
qed

lemma NodeRemoved_fields:
  assumes "NodeRemoved p node g = Some g'"
  shows "this g' = this g" "GetChildren g' = GetChildren g" "GetComponents g' = GetComponents g"
    "logged g' = logged g" "attributes g' = attributes g"
proof -
  have "this g' = this g \<and> GetChildren g' = GetChildren g \<and> GetComponents g' = GetComponents g
        \<and> logged g' = logged g \<and> attributes g' = attributes g"
    by (rule NodeRemoved_preserves [OF _ assms]) (simp_all add: remove_node_fields)
  then show "this g' = this g" "GetChildren g' = GetChildren g" "GetComponents g' = GetComponents g"
    "logged g' = logged g" "attributes g' = attributes g"
    by simp_all
qed

text \<open>The same for the removal that another scene runs.\<close>

lemma ComponentRemoved_other_nodes:
  "this (ComponentRemoved_other c g) = this g"
  "node_scene (ComponentRemoved_other c g) = node_scene g"
  "node_id (ComponentRemoved_other c g) = node_id g"
  "replicatedNodes (ComponentRemoved_other c g) = replicatedNodes g"
  "localNodes (ComponentRemoved_other c g) = localNodes g"
  "replicatedComponents (ComponentRemoved_other c g) = replicatedComponents g"
  "localComponents (ComponentRemoved_other c g) = localComponents g"
  "GetChildren (ComponentRemoved_other c g) = GetChildren g"
  "GetComponents (ComponentRemoved_other c g) = GetComponents g"
  "logged (ComponentRemoved_other c g) = logged g"
  "attributes (ComponentRemoved_other c g) = attributes g"
  "replicatedNodeID (ComponentRemoved_other c g) = replicatedNodeID g"
  by (simp_all add: ComponentRemoved_other_def attributes_def split: option.splits)

lemma fold_ComponentRemoved_other_nodes:
  "this (fold ComponentRemoved_other cs g) = this g"
  "node_scene (fold ComponentRemoved_other cs g) = node_scene g"
  "node_id (fold ComponentRemoved_other cs g) = node_id g"
  "replicatedNodes (fold ComponentRemoved_other cs g) = replicatedNodes g"
  "localNodes (fold ComponentRemoved_other cs g) = localNodes g"
  "replicatedComponents (fold ComponentRemoved_other cs g) = replicatedComponents g"
  "localComponents (fold ComponentRemoved_other cs g) = localComponents g"
  "GetChildren (fold ComponentRemoved_other cs g) = GetChildren g"
  "GetComponents (fold ComponentRemoved_other cs g) = GetComponents g"
  "logged (fold ComponentRemoved_other cs g) = logged g"
  "attributes (fold ComponentRemoved_other cs g) = attributes g"
  "replicatedNodeID (fold ComponentRemoved_other cs g) = replicatedNodeID g"
  by (induction cs arbitrary: g) (simp_all add: ComponentRemoved_other_nodes)

lemma NodeRemoved_other_unfold:
  "NodeRemoved_other p old (Some a) g =
     (if node_scene g a \<noteq> Some old then Some g
      else for_each (NodeRemoved_other p old) (GetChildren g a)
             (fold ComponentRemoved_other (GetComponents g a)
                (g\<lparr>node_scene := (node_scene g)(a := None),
                   node_id := (node_id g)(a := ResetScene_id p (node_id g a))\<rparr>)))"
  by (subst NodeRemoved_other.simps) (simp add: Let_def fold_ComponentRemoved_other_nodes)

lemma NodeRemoved_other_preserves:
  assumes step: "\<And>a g. Q g \<Longrightarrow> node_scene g a = Some old \<Longrightarrow>
                   Q (fold ComponentRemoved_other (GetComponents g a)
                        (g\<lparr>node_scene := (node_scene g)(a := None),
                           node_id := (node_id g)(a := ResetScene_id p (node_id g a))\<rparr>))"
    and run: "NodeRemoved_other p old node g = Some g'"
    and start: "Q g"
  shows "Q g'"
proof -
  have "p = p \<and> old = old \<longrightarrow> Q g \<longrightarrow> Q g'"
    apply (rule NodeRemoved_other.raw_induct
             [where P = "\<lambda>q o' node g g'. q = p \<and> o' = old \<longrightarrow> Q g \<longrightarrow> Q g'", OF _ run])
    subgoal premises prems for rm q o' node g g'
    proof (intro impI)
      assume q: "q = p \<and> o' = old" and Q: "Q g"
      note IH = prems(1) and body = prems(2)
      show "Q g'"
      proof (cases node)
        case None
        with body Q show ?thesis by simp
      next
        case (Some a)
        show ?thesis
        proof (cases "node_scene g a = Some old")
          case False
          with body Some Q q show ?thesis by simp
        next
          case True
          with body Some q
          have fe: "for_each (rm p old) (GetChildren g a)
                      (fold ComponentRemoved_other (GetComponents g a)
                        (g\<lparr>node_scene := (node_scene g)(a := None),
                           node_id := (node_id g)(a := ResetScene_id p (node_id g a))\<rparr>)) = Some g'"
            by (simp add: Let_def fold_ComponentRemoved_other_nodes)
          show ?thesis
            by (rule for_each_preserves [OF fe]) (use IH step [OF Q True] in auto)
        qed
      qed
    qed
    done
  with start show ?thesis by simp
qed

lemma NodeAdded_None: "NodeAdded p None g = Some g"
  by (subst NodeAdded.simps) simp

lemma NodeAdded_unfold:
  "NodeAdded p (Some a) g =
     (if in_scene g a then Some g
      else case add_step p a g of
             None \<Rightarrow> None
           | Some g4 \<Rightarrow>
               (case for_each (ComponentAdded p) (GetComponents g4 a) g4 of
                  None \<Rightarrow> None
                | Some g5 \<Rightarrow> for_each (NodeAdded p) (GetChildren g5 a) g5))"
  by (subst NodeAdded.simps)
    (simp add: in_scene_def add_step_def detach_old_def assign_id_def overwrite_def
       register_def node_table_def Let_def
     split: option.splits prod.splits)


section \<open>Frame properties, float rounding and the time scale\<close>

lemma GetFreeNodeID_update:
  "GetFreeNodeID p m g = Some (i, g') \<Longrightarrow>
     \<exists>c. g' = (if m = REPLICATED then g\<lparr>replicatedNodeID := c\<rparr> else g\<lparr>localNodeID := c\<rparr>)"
  by (auto simp: GetFreeNodeID_scan)


lemma attributes_updates:
  "attributes (g\<lparr>logged := l\<rparr>) = attributes g"
  "attributes (g\<lparr>node_scene := ns\<rparr>) = attributes g"
  "attributes (g\<lparr>node_id := ni\<rparr>) = attributes g"
  "attributes (g\<lparr>comp_id := ci\<rparr>) = attributes g"
  "attributes (g\<lparr>GetChildren := ks\<rparr>) = attributes g"
  "attributes (g\<lparr>GetComponents := cs\<rparr>) = attributes g"
  "attributes (g\<lparr>replicatedNodes := rn\<rparr>) = attributes g"
  "attributes (g\<lparr>localNodes := lnn\<rparr>) = attributes g"
  "attributes (g\<lparr>replicatedComponents := rc\<rparr>) = attributes g"
  "attributes (g\<lparr>localComponents := lc\<rparr>) = attributes g"
  "attributes (g\<lparr>replicatedNodeID := c1\<rparr>) = attributes g"
  "attributes (g\<lparr>localNodeID := c2\<rparr>) = attributes g"
  "attributes (g\<lparr>replicatedComponentID := c3\<rparr>) = attributes g"
  "attributes (g\<lparr>localComponentID := c4\<rparr>) = attributes g"
  by (simp_all add: attributes_def)

lemma NodeRemoved_other_fields:
  assumes "NodeRemoved_other p old node g = Some g'"
  shows "this g' = this g" "GetChildren g' = GetChildren g" "GetComponents g' = GetComponents g"
    "logged g' = logged g" "attributes g' = attributes g"
    "replicatedNodes g' = replicatedNodes g" "localNodes g' = localNodes g"
    "replicatedComponents g' = replicatedComponents g" "localComponents g' = localComponents g"
    "replicatedNodeID g' = replicatedNodeID g"
proof -
  have "this g' = this g \<and> GetChildren g' = GetChildren g \<and> GetComponents g' = GetComponents g
        \<and> logged g' = logged g \<and> attributes g' = attributes g
        \<and> replicatedNodes g' = replicatedNodes g \<and> localNodes g' = localNodes g
        \<and> replicatedComponents g' = replicatedComponents g
        \<and> localComponents g' = localComponents g
        \<and> replicatedNodeID g' = replicatedNodeID g"
    by (rule NodeRemoved_other_preserves [OF _ assms])
      (simp_all add: fold_ComponentRemoved_other_nodes attributes_updates)
  then show "this g' = this g" "GetChildren g' = GetChildren g" "GetComponents g' = GetComponents g"
    "logged g' = logged g" "attributes g' = attributes g"
    "replicatedNodes g' = replicatedNodes g" "localNodes g' = localNodes g"
    "replicatedComponents g' = replicatedComponents g" "localComponents g' = localComponents g"
    "replicatedNodeID g' = replicatedNodeID g"
    by simp_all
qed

lemma detach_old_fields:
  assumes "detach_old p a g = Some g'"
  shows "this g' = this g" "GetChildren g' = GetChildren g" "GetComponents g' = GetComponents g"
    "logged g' = logged g" "attributes g' = attributes g"
    "replicatedNodes g' = replicatedNodes g" "localNodes g' = localNodes g"
    "replicatedComponents g' = replicatedComponents g" "localComponents g' = localComponents g"
    "replicatedNodeID g' = replicatedNodeID g"
  using assms NodeRemoved_other_fields [of p _ "Some a" g g']
  by (auto simp: detach_old_def split: option.splits)

lemma assign_id_fields:
  assumes "assign_id p a g = Some (i, g')"
  shows "this g' = this g" "GetChildren g' = GetChildren g" "GetComponents g' = GetComponents g"
    "logged g' = logged g" "attributes g' = attributes g" "node_scene g' = node_scene g"
    "replicatedNodes g' = replicatedNodes g" "localNodes g' = localNodes g"
    "replicatedComponents g' = replicatedComponents g" "localComponents g' = localComponents g"
    "comp_id g' = comp_id g" "node_id g' a = i" "b \<noteq> a \<Longrightarrow> node_id g' b = node_id g b"
  using assms GetFreeNodeID_update [of p REPLICATED g]
  by (auto simp: assign_id_def attributes_def split: if_splits)

lemma overwrite_fields:
  assumes "overwrite p a i g = Some g'"
  shows "this g' = this g" "GetChildren g' = GetChildren g" "GetComponents g' = GetComponents g"
    "attributes g' = attributes g"
proof -
  have "this g' = this g \<and> GetChildren g' = GetChildren g \<and> GetComponents g' = GetComponents g
        \<and> attributes g' = attributes g"
  proof (cases "node_table p g i")
    case None
    with assms show ?thesis by (simp add: overwrite_def)
  next
    case (Some other)
    show ?thesis
    proof (cases "other = a")
      case True
      with assms Some show ?thesis by (simp add: overwrite_def)
    next
      case False
      with assms Some
      have "NodeRemoved p (Some other) (g\<lparr>logged := logged g @ [OverwritingNode i]\<rparr>) = Some g'"
        by (simp add: overwrite_def)
      from NodeRemoved_fields [OF this] show ?thesis by (simp add: attributes_updates)
    qed
  qed
  then show "this g' = this g" "GetChildren g' = GetChildren g" "GetComponents g' = GetComponents g"
    "attributes g' = attributes g"
    by simp_all
qed

lemma register_fields:
  "this (register p a i g) = this g"
  "GetChildren (register p a i g) = GetChildren g"
  "GetComponents (register p a i g) = GetComponents g"
  "attributes (register p a i g) = attributes g"
  "node_scene (register p a i g) = node_scene g"
  "node_id (register p a i g) = node_id g"
  "comp_id (register p a i g) = comp_id g"
  "logged (register p a i g) = logged g"
  "replicatedComponents (register p a i g) = replicatedComponents g"
  "localComponents (register p a i g) = localComponents g"
  by (simp_all add: register_def attributes_def)

lemma register_table:
  "node_table p (register p a i g) k = (if k = i then Some a else node_table p g k)"
  by (cases "IsReplicatedID p i"; cases "IsReplicatedID p k") (auto simp: register_def node_table_def)

lemma add_step_fields:
  assumes "add_step p a g = Some g'"
  shows "this g' = this g" "GetChildren g' = GetChildren g" "GetComponents g' = GetComponents g"
    "attributes g' = attributes g"
proof -
  from assms obtain g0 i g2 g3 where 0: "detach_old p a g = Some g0"
    and 2: "assign_id p a (g0\<lparr>node_scene := (node_scene g0)(a \<mapsto> this g0)\<rparr>) = Some (i, g2)"
    and 3: "overwrite p a i g2 = Some g3" and 4: "g' = register p a i g3"
    by (auto simp: add_step_def split: option.splits)
  show "this g' = this g" "GetChildren g' = GetChildren g" "GetComponents g' = GetComponents g"
    "attributes g' = attributes g"
    using detach_old_fields [OF 0] assign_id_fields [OF 2] overwrite_fields [OF 3] 4
    by (simp_all add: register_fields attributes_updates)
qed

lemma NodeAdded_bare:
  assumes "GetComponents g a = []" "GetChildren g a = []"
  shows "NodeAdded p (Some a) g = (if in_scene g a then Some g else add_step p a g)"
proof (cases "add_step p a g")
  case None
  then show ?thesis by (simp add: NodeAdded_unfold)
next
  case (Some g4)
  from add_step_fields [OF Some] assms
  have "GetComponents g4 a = []" "GetChildren g4 a = []" by simp_all
  with Some show ?thesis by (simp add: NodeAdded_unfold)
qed

















section \<open>Properties of the constructor and of the first child\<close>

lemma scan_empty:
  "free_id_scan f l (\<lambda>k. False) cur = Some (cur, if cur < l then cur + 1 else f)"
  by (subst free_id_scan.simps) (simp add: Let_def)

lemma scan_free_now:
  "\<not> c cur \<Longrightarrow> free_id_scan f l c cur = Some (cur, if cur < l then cur + 1 else f)"
  by (subst free_id_scan.simps) (simp add: Let_def)

lemma node_table_same:
  "replicatedNodes g' = replicatedNodes g \<Longrightarrow> localNodes g' = localNodes g
     \<Longrightarrow> node_table p g' = node_table p g"
  by (rule ext) (simp add: node_table_def)

lemma add_step_plain:
  assumes "node_scene g a = None" "node_id g a = i" "i \<noteq> 0" "node_table p g i = None"
  shows "add_step p a g = Some (register p a i (g\<lparr>node_scene := (node_scene g)(a \<mapsto> this g)\<rparr>))"
proof -
  let ?g1 = "g\<lparr>node_scene := (node_scene g)(a \<mapsto> this g)\<rparr>"
  have d: "detach_old p a g = Some g" using assms(1) by (simp add: detach_old_def)
  have i: "assign_id p a ?g1 = Some (i, ?g1)" using assms(2,3) by (simp add: assign_id_def)
  have "node_table p ?g1 = node_table p g" by (rule node_table_same) simp_all
  then have "node_table p ?g1 i = None" using assms(4) by simp
  then have o: "overwrite p a i ?g1 = Some ?g1" by (simp add: overwrite_def)
  show ?thesis by (simp add: add_step_def d i o)
qed

lemma Scene_ctor_eq:
  assumes "FIRST_REPLICATED_ID p \<noteq> 0" "FIRST_REPLICATED_ID p < LAST_REPLICATED_ID p"
  shows "Scene_ctor p a ids scenes cids comps kids
         = Some (initial_scene (ctor_content p a ids scenes cids comps kids))"
proof -
  let ?g0 = "initial_content p a ids scenes cids comps kids"
  have 1: "GetFreeNodeID p REPLICATED ?g0
            = Some (FIRST_REPLICATED_ID p, ?g0\<lparr>replicatedNodeID := FIRST_REPLICATED_ID p + 1\<rparr>)"
    using assms by (simp add: GetFreeNodeID_def initial_content_def scan_empty)
  let ?g1 = "?g0\<lparr>replicatedNodeID := FIRST_REPLICATED_ID p + 1,
                 node_id := ids(a := FIRST_REPLICATED_ID p)\<rparr>"
  have bare: "GetComponents ?g1 a = []" "GetChildren ?g1 a = []" "\<not> in_scene ?g1 a"
    by (simp_all add: initial_content_def in_scene_def)
  have st: "add_step p a ?g1
          = Some (register p a (FIRST_REPLICATED_ID p)
                   (?g1\<lparr>node_scene := (node_scene ?g1)(a \<mapsto> this ?g1)\<rparr>))"
    by (rule add_step_plain) (use assms in \<open>simp_all add: initial_content_def node_table_def\<close>)
  have eq: "register p a (FIRST_REPLICATED_ID p)
              (?g1\<lparr>node_scene := (node_scene ?g1)(a \<mapsto> this ?g1)\<rparr>)
            = ctor_content p a ids scenes cids comps kids"
    by (simp add: ctor_content_def initial_content_def)
  have 2: "NodeAdded p (Some a) ?g1 = Some (ctor_content p a ids scenes cids comps kids)"
    unfolding NodeAdded_bare [OF bare(1,2)] using bare(3) st eq by simp
  have "?g0\<lparr>replicatedNodeID := FIRST_REPLICATED_ID p + 1\<rparr>
          \<lparr>node_id := (node_id (?g0\<lparr>replicatedNodeID := FIRST_REPLICATED_ID p + 1\<rparr>))
                         (a := FIRST_REPLICATED_ID p)\<rparr> = ?g1"
    by (simp add: initial_content_def)
  with 1 2 show ?thesis by (simp add: Scene_ctor_def)
qed

lemma ctor_content_fields:
  "this (ctor_content p a ids scenes cids comps kids) = a"
  "node_id (ctor_content p a ids scenes cids comps kids) = ids(a := FIRST_REPLICATED_ID p)"
  "node_scene (ctor_content p a ids scenes cids comps kids) = scenes(a \<mapsto> a)"
  "GetComponents (ctor_content p a ids scenes cids comps kids) = comps(a := [])"
  "GetChildren (ctor_content p a ids scenes cids comps kids) = kids(a := [])"
  "comp_id (ctor_content p a ids scenes cids comps kids) = cids"
  "replicatedNodeID (ctor_content p a ids scenes cids comps kids) = FIRST_REPLICATED_ID p + 1"
  "replicatedComponents (ctor_content p a ids scenes cids comps kids) = Map.empty"
  "localComponents (ctor_content p a ids scenes cids comps kids) = Map.empty"
  "node_table p (ctor_content p a ids scenes cids comps kids) k
     = (if k = FIRST_REPLICATED_ID p then Some a else None)"
  "replicatedNodes (ctor_content p a ids scenes cids comps kids) k
     = (if k = FIRST_REPLICATED_ID p \<and> IsReplicatedID p k then Some a else None)"
  "localNodes (ctor_content p a ids scenes cids comps kids) k
     = (if k = FIRST_REPLICATED_ID p \<and> \<not> IsReplicatedID p k then Some a else None)"
  by (auto simp: ctor_content_def register_fields register_table initial_content_def node_table_def
        register_def)

text \<open>
  C8, amended: when the replicated range does not start at 0 and holds more than one
  id, the constructor gives the first id of the range to the scene itself, and the
  first child node created with an automatically assigned replicated id gets the
  second id of the range, that is \<open>FIRST_REPLICATED_ID + 1\<close>: this is what
  \<open>GetFreeNodeID(REPLICATED)\<close> returns on the new scene, what \<open>NodeAdded\<close> assigns
  to a new node whose id is 0, and the id of the first child that the scene creates
  without an explicit id.
\<close>

theorem first_child_id:
  assumes "FIRST_REPLICATED_ID p \<noteq> 0" "FIRST_REPLICATED_ID p < LAST_REPLICATED_ID p"
  shows "\<exists>s. Scene_ctor p a ids scenes cids comps kids = Some s
           \<and> node_id (content s) a = FIRST_REPLICATED_ID p
           \<and> node_table p (content s) (FIRST_REPLICATED_ID p) = Some a
           \<and> map_option fst (GetFreeNodeID p REPLICATED (content s))
               = Some (FIRST_REPLICATED_ID p + 1)
           \<and> (\<forall>n. n \<noteq> a \<and> ids n = 0 \<and> scenes n = None \<and> comps n = [] \<and> kids n = [] \<longrightarrow>
                 (\<exists>g'. NodeAdded p (Some n) (content s) = Some g'
                    \<and> node_id g' n = FIRST_REPLICATED_ID p + 1
                    \<and> node_table p g' (FIRST_REPLICATED_ID p + 1) = Some n))
           \<and> (\<forall>n. n \<noteq> a \<and> scenes n = None \<and> comps n = [] \<and> kids n = [] \<longrightarrow>
                 (\<exists>g'. Node_create_child p a 0 REPLICATED n (content s) = Some g'
                    \<and> node_id g' n = FIRST_REPLICATED_ID p + 1
                    \<and> node_table p g' (FIRST_REPLICATED_ID p + 1) = Some n))"
proof -
  let ?F = "FIRST_REPLICATED_ID p"
  let ?g = "ctor_content p a ids scenes cids comps kids"
  note cf = ctor_content_fields [of p a ids scenes cids comps kids]
  have ne: "?F + 1 \<noteq> ?F" by simp
  have nz: "?F + 1 \<noteq> 0"
    using assms(2)
    by (metis (no_types, lifting) add.assoc add.right_inverse add_cancel_left_left
        word_order.extremum_strict)
  have free: "replicatedNodes ?g (?F + 1) = None" "node_table p ?g (?F + 1) = None"
    by (simp_all add: cf)
  let ?c = "if ?F + 1 < LAST_REPLICATED_ID p then ?F + 1 + 1 else ?F"
  have scan: "GetFreeNodeID p REPLICATED h = Some (?F + 1, h\<lparr>replicatedNodeID := ?c\<rparr>)"
    if "replicatedNodes h (?F + 1) = None" "replicatedNodeID h = ?F + 1" for h
    using that by (simp add: GetFreeNodeID_def scan_free_now)
  have child: "\<exists>g'. NodeAdded p (Some n) ?g = Some g'
                    \<and> node_id g' n = ?F + 1 \<and> node_table p g' (?F + 1) = Some n"
    if n: "n \<noteq> a" "ids n = 0" "scenes n = None" "comps n = []" "kids n = []" for n
  proof -
    let ?g1 = "?g\<lparr>node_scene := (node_scene ?g)(n \<mapsto> a)\<rparr>"
    have s1: "GetFreeNodeID p REPLICATED ?g1 = Some (?F + 1, ?g1\<lparr>replicatedNodeID := ?c\<rparr>)"
      by (rule scan) (simp_all add: cf)
    have bare: "GetComponents ?g n = []" "GetChildren ?g n = []" "\<not> in_scene ?g n"
      using n by (simp_all add: cf in_scene_def)
    have "add_step p n ?g
          = Some (register p n (?F + 1)
                    (?g1\<lparr>replicatedNodeID := ?c, node_id := (node_id ?g1)(n := ?F + 1)\<rparr>))"
      using n s1 free
      by (simp add: add_step_def detach_old_def assign_id_def overwrite_def node_table_def cf)
    with bare show ?thesis
      by (simp add: NodeAdded_bare register_fields register_table)
  qed
  have create: "\<exists>g'. Node_create_child p a 0 REPLICATED n ?g = Some g'
                    \<and> node_id g' n = ?F + 1 \<and> node_table p g' (?F + 1) = Some n"
    if n: "n \<noteq> a" "scenes n = None" "comps n = []" "kids n = []" for n
  proof -
    have s0: "GetFreeNodeID p REPLICATED ?g = Some (?F + 1, ?g\<lparr>replicatedNodeID := ?c\<rparr>)"
      by (rule scan) (simp_all add: cf)
    let ?h = "?g\<lparr>replicatedNodeID := ?c, node_id := (node_id ?g)(n := ?F + 1),
                  GetChildren := (GetChildren ?g)(a := GetChildren ?g a @ [Some n])\<rparr>"
    have bare: "GetComponents ?h n = []" "GetChildren ?h n = []" "\<not> in_scene ?h n"
      using n by (simp_all add: cf in_scene_def)
    have "add_step p n ?h
          = Some (register p n (?F + 1) (?h\<lparr>node_scene := (node_scene ?h)(n \<mapsto> this ?h)\<rparr>))"
      by (rule add_step_plain) (use n nz free in \<open>simp_all add: cf node_table_def\<close>)
    with bare have "NodeAdded p (Some n) ?h
          = Some (register p n (?F + 1) (?h\<lparr>node_scene := (node_scene ?h)(n \<mapsto> this ?h)\<rparr>))"
      by (simp add: NodeAdded_bare)
    with s0 show ?thesis
      by (simp add: Node_create_child_def cf register_fields register_table)
  qed
  have "map_option fst (GetFreeNodeID p REPLICATED ?g) = Some (?F + 1)"
    using scan [of ?g] by (simp add: cf)
  with child create show ?thesis
    using Scene_ctor_eq [OF assms, of a ids scenes cids comps kids]
    by (simp add: initial_scene_def cf)
qed

lemma constructed_content_eq:
  "ctor_content engine_params 0 (\<lambda>a. 0) (\<lambda>a. None) (\<lambda>a. 0) (\<lambda>a. []) (\<lambda>a. [])
   = constructed_content"
  by (simp add: ctor_content_def constructed_content_def register_def engine_params_def
        initial_content_def)

theorem first_child_id_witness:
  "FIRST_REPLICATED_ID engine_params \<noteq> 0
   \<and> FIRST_REPLICATED_ID engine_params < LAST_REPLICATED_ID engine_params
   \<and> (\<exists>s. Scene_ctor engine_params 0 (\<lambda>a. 0) (\<lambda>a. None) (\<lambda>a. 0) (\<lambda>a. []) (\<lambda>a. []) = Some s
          \<and> node_id (content s) 0 = 1
          \<and> map_option fst (GetFreeNodeID engine_params REPLICATED (content s)) = Some 2
          \<and> (\<exists>g'. NodeAdded engine_params (Some 1) (content s) = Some g' \<and> node_id g' 1 = 2)
          \<and> (\<exists>g'. Node_create_child engine_params 0 0 REPLICATED 1 (content s) = Some g'
                 \<and> node_id g' 1 = 2))"
proof -
  have p: "FIRST_REPLICATED_ID engine_params \<noteq> 0"
    "FIRST_REPLICATED_ID engine_params < LAST_REPLICATED_ID engine_params"
    by (simp_all add: engine_params_def)
  from first_child_id [OF p, of 0 "\<lambda>a. 0" "\<lambda>a. None" "\<lambda>a. 0" "\<lambda>a. []" "\<lambda>a. []"]
  obtain s where s: "Scene_ctor engine_params 0 (\<lambda>a. 0) (\<lambda>a. None) (\<lambda>a. 0) (\<lambda>a. []) (\<lambda>a. []) = Some s"
    and 1: "node_id (content s) 0 = FIRST_REPLICATED_ID engine_params"
    and 2: "map_option fst (GetFreeNodeID engine_params REPLICATED (content s))
              = Some (FIRST_REPLICATED_ID engine_params + 1)"
    and 3: "\<forall>n. n \<noteq> 0 \<and> (0 :: id32) = 0 \<and> (None :: addr option) = None
                 \<and> ([] :: addr option list) = [] \<and> ([] :: addr option list) = [] \<longrightarrow>
                 (\<exists>g'. NodeAdded engine_params (Some n) (content s) = Some g'
                    \<and> node_id g' n = FIRST_REPLICATED_ID engine_params + 1
                    \<and> node_table engine_params g' (FIRST_REPLICATED_ID engine_params + 1) = Some n)"
    and 4: "\<forall>n. n \<noteq> 0 \<and> (None :: addr option) = None
                 \<and> ([] :: addr option list) = [] \<and> ([] :: addr option list) = [] \<longrightarrow>
                 (\<exists>g'. Node_create_child engine_params 0 0 REPLICATED n (content s) = Some g'
                    \<and> node_id g' n = FIRST_REPLICATED_ID engine_params + 1
                    \<and> node_table engine_params g' (FIRST_REPLICATED_ID engine_params + 1) = Some n)"
    by blast
  from spec [OF 3, of 1]
  have n3: "\<exists>g'. NodeAdded engine_params (Some 1) (content s) = Some g'
                    \<and> node_id g' 1 = FIRST_REPLICATED_ID engine_params + 1"
    by auto
  from spec [OF 4, of 1]
  have n4: "\<exists>g'. Node_create_child engine_params 0 0 REPLICATED 1 (content s) = Some g'
                    \<and> node_id g' 1 = FIRST_REPLICATED_ID engine_params + 1"
    by auto
  have F: "FIRST_REPLICATED_ID engine_params = 1" "FIRST_REPLICATED_ID engine_params + 1 = 2"
    by (simp_all add: engine_params_def)
  from p s 1 2 n3 n4 show ?thesis by (auto simp: F(1))
qed

text \<open>
  C8, as stated, fails: with the replicated range starting at 1, the new scene holds
  the id 1, and the first child with an automatically assigned replicated id gets
  the id 2, not 1.
\<close>

theorem first_child_id_counterexample:
  "Scene_ctor engine_params 0 (\<lambda>a. 0) (\<lambda>a. None) (\<lambda>a. 0) (\<lambda>a. []) (\<lambda>a. [])
     = Some (initial_scene constructed_content)
   \<and> map_option fst (GetFreeNodeID engine_params REPLICATED constructed_content) = Some 2
   \<and> map_option (\<lambda>g'. node_id g' 1)
        (NodeAdded engine_params (Some 1) constructed_content) = Some 2
   \<and> map_option (\<lambda>g'. node_id g' 1)
        (Node_create_child engine_params 0 0 REPLICATED 1 constructed_content) = Some 2
   \<and> (2 :: id32) \<noteq> FIRST_REPLICATED_ID engine_params"
proof -
  have p: "FIRST_REPLICATED_ID engine_params \<noteq> 0"
    "FIRST_REPLICATED_ID engine_params < LAST_REPLICATED_ID engine_params"
    by (simp_all add: engine_params_def)
  have 1: "Scene_ctor engine_params 0 (\<lambda>a. 0) (\<lambda>a. None) (\<lambda>a. 0) (\<lambda>a. []) (\<lambda>a. [])
             = Some (initial_scene constructed_content)"
    using Scene_ctor_eq [OF p, of 0 "\<lambda>a. 0" "\<lambda>a. None" "\<lambda>a. 0" "\<lambda>a. []" "\<lambda>a. []"]
    by (simp add: constructed_content_eq)
  have 2: "GetFreeNodeID engine_params REPLICATED constructed_content
             = Some (2, constructed_content\<lparr>replicatedNodeID := 3\<rparr>)"
    by (simp add: GetFreeNodeID_def engine_params_def constructed_content_def scan_free_now
          initial_content_def)
  have bare: "GetComponents constructed_content 1 = []" "GetChildren constructed_content 1 = []"
    "\<not> in_scene constructed_content 1"
    by (simp_all add: constructed_content_def initial_content_def in_scene_def)
  have "GetFreeNodeID engine_params REPLICATED
          (constructed_content\<lparr>node_scene := (node_scene constructed_content)(1 \<mapsto> 0)\<rparr>)
             = Some (2, constructed_content\<lparr>node_scene := (node_scene constructed_content)(1 \<mapsto> 0),
                                           replicatedNodeID := 3\<rparr>)"
    by (simp add: GetFreeNodeID_def engine_params_def constructed_content_def scan_free_now
          initial_content_def)
  then have "map_option (\<lambda>g'. node_id g' 1) (add_step engine_params 1 constructed_content) = Some 2"
    by (simp add: add_step_def detach_old_def assign_id_def overwrite_def node_table_def
          register_def Let_def constructed_content_def initial_content_def engine_params_def)
  with bare have 3: "map_option (\<lambda>g'. node_id g' 1)
        (NodeAdded engine_params (Some 1) constructed_content) = Some 2"
    by (simp add: NodeAdded_bare)
  let ?h = "constructed_content\<lparr>replicatedNodeID := 3,
              node_id := (node_id constructed_content)(1 := 2),
              GetChildren := (GetChildren constructed_content)
                               (0 := GetChildren constructed_content 0 @ [Some 1])\<rparr>"
  have bare': "GetComponents ?h 1 = []" "GetChildren ?h 1 = []" "\<not> in_scene ?h 1"
    by (simp_all add: constructed_content_def initial_content_def in_scene_def)
  have "map_option (\<lambda>g'. node_id g' 1) (add_step engine_params 1 ?h) = Some 2"
    by (simp add: add_step_def detach_old_def assign_id_def overwrite_def node_table_def
          register_def Let_def constructed_content_def initial_content_def engine_params_def)
  with bare' have "map_option (\<lambda>g'. node_id g' 1) (NodeAdded engine_params (Some 1) ?h) = Some 2"
    by (simp add: NodeAdded_bare)
  with 2 have 4: "map_option (\<lambda>g'. node_id g' 1)
        (Node_create_child engine_params 0 0 REPLICATED 1 constructed_content) = Some 2"
    by (simp add: Node_create_child_def constructed_content_def initial_content_def)
  show ?thesis using 1 2 3 4 by (simp add: engine_params_def)
qed

section \<open>Properties of adding with an explicit id that is taken\<close>















end
